theory Spec2Isabelle
  imports Complex_Main "HOL-Library.Word"
begin

unbundle bit_operations_syntax

section \<open>Audio sources\<close>

text \<open>
  The abstract class \<open>Readable\<close> of readable.h: four virtual methods.  A source is a
  record of what the methods return.  \<open>rd_read r pos cnt chn\<close> is the list of samples
  that \<open>read (dst, pos, cnt, chn)\<close> stores at \<open>dst\<close>; its length is the method's return
  value.  Samples are C floats; their type is left open (the type variable \<open>'a\<close>) and only
  the operations the code applies to them are required of it, so no law of real arithmetic
  is used for them.
\<close>

record 'a readable =
  rd_read :: "nat \<Rightarrow> nat \<Rightarrow> nat \<Rightarrow> 'a list"
  rd_length :: nat
  rd_channels :: nat
  rd_rate :: nat

text \<open>Reads and writes outside an array are undefined behaviour in C++; the model returns
  \<open>Inl OutOfBounds\<close> for them.\<close>

datatype fault = OutOfBounds

section \<open>TimeDomainConvolver (convolver.cc)\<close>

record 'a tdc =
  tdc_enabled :: bool
  tdc_ir :: "'a list"

text \<open>\<open>reset\<close>: \<open>memset (_ir, 0, 64 * sizeof (float)); _enabled = false;\<close>\<close>

definition tdc_reset :: "('a::zero) tdc \<Rightarrow> 'a tdc" where
  "tdc_reset t = t\<lparr>tdc_ir := replicate 64 0, tdc_enabled := False\<rparr>"

text \<open>The constructor only calls \<open>reset\<close>; the fields have no value before it.\<close>

definition tdc_new :: "('a::zero) tdc" where
  "tdc_new = \<lparr>tdc_enabled = False, tdc_ir = replicate 64 0\<rparr>"

text \<open>\<open>dst[k] = src[k]\<close> for \<open>k < length src\<close>, at offset \<open>off\<close> of \<open>dst\<close>.\<close>

definition store_at :: "'a list \<Rightarrow> nat \<Rightarrow> 'a list \<Rightarrow> 'a list" where
  "store_at dst off src = take off dst @ src @ drop (off + length src) dst"

text \<open>
  \<open>configure (r, gain, delay)\<close>.  \<open>max_len\<close> is a \<open>uint32_t\<close> initialised from the 64-bit
  \<open>readable_length ()\<close>.  The read may store \<open>to_read\<close> samples from \<open>&_ir[delay]\<close> on;
  the array has 64 entries.
\<close>

definition tdc_configure ::
  "'a readable \<Rightarrow> 'a \<Rightarrow> nat \<Rightarrow> ('a::{zero,one,times}) tdc \<Rightarrow> fault + 'a tdc" where
  "tdc_configure r gain delay t =
    (if delay \<ge> 64 then Inr t
     else
       let to_read = min 64 delay;
           max_len = rd_length r mod 2 ^ 32;
           to_read = (if delay < max_len then min to_read (max_len - delay) else to_read)
       in if to_read = 0 then Inr t
          else if delay + to_read > 64 then Inl OutOfBounds
          else
            let ir1 = store_at (tdc_ir t) delay (take to_read (rd_read r 0 to_read 0));
                ir2 = (if gain \<noteq> 1
                       then take delay ir1 @ map (\<lambda>x. x * gain) (drop delay ir1)
                       else ir1)
            in Inr (t\<lparr>tdc_ir := ir2\<rparr>))"

text \<open>The inner loop of \<open>run\<close>: \<open>out[i + j] += in[i] * _ir[j]\<close> for \<open>j < m\<close>.\<close>

fun tdc_inner :: "('a::{plus,times}) list \<Rightarrow> 'a \<Rightarrow> nat \<Rightarrow> nat \<Rightarrow> 'a list \<Rightarrow> 'a list" where
  "tdc_inner ir x i 0 out = out"
| "tdc_inner ir x i (Suc m) out =
     (let out' = tdc_inner ir x i m out
      in out'[i + m := out' ! (i + m) + x * ir ! m])"

text \<open>The outer loop, \<open>i\<close> from 0 to \<open>n - 1\<close>; the inner bound is \<open>n_samples - i\<close>.\<close>

fun tdc_outer :: "('a::{plus,times}) list \<Rightarrow> 'a list \<Rightarrow> nat \<Rightarrow> nat \<Rightarrow> 'a list \<Rightarrow> 'a list" where
  "tdc_outer ir inp n 0 out = out"
| "tdc_outer ir inp n (Suc i) out =
     tdc_inner ir (inp ! i) i (n - i) (tdc_outer ir inp n i out)"

text \<open>\<open>run (out, in, n_samples)\<close>.  The loops read \<open>in[i]\<close> and \<open>_ir[j]\<close> and write
  \<open>out[i + j]\<close> for \<open>i + j < n_samples\<close>.\<close>

definition tdc_run :: "('a::{plus,times}) tdc \<Rightarrow> 'a list \<Rightarrow> 'a list \<Rightarrow> nat \<Rightarrow> fault + 'a list" where
  "tdc_run t out inp n_samples =
    (if \<not> tdc_enabled t then Inr out
     else if n_samples > 64 \<or> n_samples > length out \<or> n_samples > length inp
          then Inl OutOfBounds
     else Inr (tdc_outer (tdc_ir t) inp n_samples n_samples out))"

text \<open>The public, non-const methods of the class, and a sequence of calls on one object;
  the sequence ends at the first fault.\<close>

datatype 'a tdc_call = Reset | Configure "'a readable" 'a nat

fun tdc_apply :: "('a::{zero,one,times}) tdc_call \<Rightarrow> 'a tdc \<Rightarrow> fault + 'a tdc" where
  "tdc_apply Reset t = Inr (tdc_reset t)"
| "tdc_apply (Configure r gain delay) t = tdc_configure r gain delay t"

fun tdc_calls :: "('a::{zero,one,times}) tdc_call list \<Rightarrow> 'a tdc \<Rightarrow> fault + 'a tdc" where
  "tdc_calls [] t = Inr t"
| "tdc_calls (c # cs) t =
     (case tdc_apply c t of Inl e \<Rightarrow> Inl e | Inr t' \<Rightarrow> tdc_calls cs t')"

text \<open>A memory source of one channel holding the samples \<open>xs\<close>, for concrete runs.\<close>

definition list_source :: "'a list \<Rightarrow> nat \<Rightarrow> 'a readable" where
  "list_source xs rate =
    \<lparr>rd_read = (\<lambda>pos cnt chn. take cnt (drop pos xs)),
     rd_length = length xs, rd_channels = 1, rd_rate = rate\<rparr>"

section \<open>The Convolver constructor (convolver.cc, convolver.h, audiosrc.h)\<close>

datatype IRChannelConfig = Mono | MonoToStereo | Stereo

text \<open>\<open>std::runtime_error\<close> with its message.\<close>

datatype runtime_error = Runtime_error string












section \<open>The plugin (lv2.cc)\<close>

text \<open>
  The methods of \<open>Convolver\<close> that lv2.cc calls.  The plugin is modelled over any engine
  type \<open>'c\<close> with these operations; \<open>cv_new\<close> is the constructor called with the five
  arguments lv2.cc passes, \<open>cv_artificial_latency\<close> the accessor \<open>artificial_latency ()\<close>
  it calls.  The audio buffers are not part of the model:
  \<open>cv_run\<close> is the effect of one of the four run methods on the engine.
\<close>

datatype run_method = Run_buffered_mono | Run_buffered_stereo | Run_mono | Run_stereo

record 'c convolver_ops =
  cv_new :: "string \<Rightarrow> nat \<Rightarrow> int \<Rightarrow> int \<Rightarrow> IRChannelConfig \<Rightarrow> runtime_error + 'c"
  cv_reconfigure :: "nat \<Rightarrow> 'c \<Rightarrow> 'c"
  cv_ready :: "'c \<Rightarrow> bool"
  cv_latency :: "'c \<Rightarrow> nat"
  cv_artificial_latency :: "'c \<Rightarrow> nat"
  cv_sum_inputs :: "'c \<Rightarrow> bool"
  cv_path :: "'c \<Rightarrow> string"
  cv_set_output_gain :: "real \<Rightarrow> real \<Rightarrow> bool \<Rightarrow> 'c \<Rightarrow> 'c"
  cv_run :: "run_method \<Rightarrow> nat \<Rightarrow> 'c \<Rightarrow> 'c"

definition CMD_APPLY :: nat where "CMD_APPLY = 0"
definition CMD_FREE :: nat where "CMD_FREE = 1"

text \<open>A message to the worker is a \<open>uint32_t\<close> command or the body of a path atom.\<close>

datatype work_msg = Cmd nat | Load_path string

datatype LV2_Worker_Status = LV2_WORKER_SUCCESS | LV2_WORKER_ERR_UNKNOWN

datatype ui_event = Patch_Set_ir string | State_Changed

text \<open>What a call does to the host, in order: \<open>respond (handle, 1, "")\<close>,
  \<open>schedule_work\<close>, an atom forged for the UI; and \<open>new Convolver\<close> with its path.\<close>

datatype effect = Respond | Schedule work_msg | Notify ui_event | New_Convolver string

text \<open>The fields of \<open>zeroConvolv\<close> that the modelled functions use.  \<open>has_control\<close> and
  \<open>has_notify\<close> say that the port pointer is not null; \<open>p_latency\<close> is the number stored
  at the latency port.  The port is a \<open>float\<close>, which holds a number below \<open>2^24\<close> exactly;
  the model is that of latencies below \<open>2^24\<close>.\<close>

record 'c zeroConvolv =
  has_control :: bool
  has_notify :: bool
  p_latency :: nat
  buffered :: bool
  db_dry :: real
  db_wet :: real
  dry_coeff :: real
  dry_target :: real
  clv_online :: "'c option"
  clv_offline :: "'c option"
  pset_dirty :: bool
  chn_cfg :: IRChannelConfig
  rate :: nat
  chn_in :: nat
  chn_out :: nat
  block_size :: nat
  rt_policy :: int
  rt_priority :: int
  tc64 :: real
  next_queued_file :: string

definition db_to_coeff :: "real \<Rightarrow> real" where
  "db_to_coeff db =
    (if db \<le> - 60 then 0
     else if db > 6.02 then 2
     else 10 powr (0.05 * db))"

definition inform_ui :: "'c convolver_ops \<Rightarrow> 'c zeroConvolv \<Rightarrow> bool \<Rightarrow> effect list" where
  "inform_ui E self mark_dirty =
    (if \<not> has_control self \<or> \<not> has_notify self then []
     else case clv_online self of
       None \<Rightarrow> []
     | Some c \<Rightarrow>
         if cv_path E c = [] then []
         else if next_queued_file self \<noteq> [] then []
         else Notify (Patch_Set_ir (cv_path E c))
                # (if mark_dirty then [Notify State_Changed] else []))"

text \<open>\<open>run\<close>: the latency port and the run method called on the online engine.\<close>

definition run :: "'c convolver_ops \<Rightarrow> 'c zeroConvolv \<Rightarrow> nat \<Rightarrow> 'c zeroConvolv" where
  "run E self n_samples =
    (case clv_online self of
       None \<Rightarrow> self\<lparr>p_latency := 0\<rparr>
     | Some c \<Rightarrow>
         let b = buffered self;
             lat = cv_artificial_latency E c + (if b then cv_latency E c else 0);
             m = (if chn_in self = 2 then (if b then Run_buffered_stereo else Run_stereo)
                  else if chn_out self = 2 then (if b then Run_buffered_stereo else Run_stereo)
                  else (if b then Run_buffered_mono else Run_mono))
         in self\<lparr>p_latency := lat, clv_online := Some (cv_run E m n_samples c)\<rparr>)"

text \<open>\<open>work_response\<close>; it always returns \<open>LV2_WORKER_SUCCESS\<close>.\<close>

definition work_response :: "'c convolver_ops \<Rightarrow> 'c zeroConvolv \<Rightarrow> 'c zeroConvolv \<times> effect list" where
  "work_response E self =
    (case clv_offline self of
       None \<Rightarrow>
         (self, if next_queued_file self \<noteq> [] then [Schedule (Cmd CMD_FREE)] else [])
     | Some new \<Rightarrow>
         let old = clv_online self;
             new' = cv_set_output_gain E (db_to_coeff (db_dry self)) (db_to_coeff (db_wet self))
                      False new;
             s1 = self\<lparr>clv_online := Some new', clv_offline := old\<rparr>;
             ui = inform_ui E s1 (pset_dirty s1)
         in (s1\<lparr>pset_dirty := True\<rparr>, ui @ [Schedule (Cmd CMD_FREE)]))"

text \<open>\<open>load_ir_worker (self, respond, handle, ir_path, ok)\<close>: the status, \<open>ok\<close>, the new
  state and the effects.  \<open>respond\<close> says that the respond function is not null.\<close>

definition load_ir_worker ::
  "'c convolver_ops \<Rightarrow> 'c zeroConvolv \<Rightarrow> bool \<Rightarrow> string
    \<Rightarrow> LV2_Worker_Status \<times> bool \<times> 'c zeroConvolv \<times> effect list" where
  "load_ir_worker E self respond ir_path =
    (case clv_offline self of
       Some c \<Rightarrow> (LV2_WORKER_SUCCESS, False, self\<lparr>next_queued_file := ir_path\<rparr>, [])
     | None \<Rightarrow>
         (case cv_new E ir_path (rate self) (rt_policy self) (rt_priority self) (chn_cfg self) of
            Inl err \<Rightarrow>
              (LV2_WORKER_ERR_UNKNOWN, False, self\<lparr>clv_offline := None\<rparr>,
               [New_Convolver ir_path])
          | Inr c \<Rightarrow>
              let c' = cv_reconfigure E (block_size self) c
              in if \<not> cv_ready E c'
                 then (LV2_WORKER_ERR_UNKNOWN, False, self\<lparr>clv_offline := None\<rparr>,
                       [New_Convolver ir_path])
                 else (LV2_WORKER_SUCCESS, True, self\<lparr>clv_offline := Some c'\<rparr>,
                       New_Convolver ir_path # (if respond then [Respond] else []))))"

text \<open>\<open>work\<close>: a message of the size of a \<open>uint32_t\<close> is a command, any other a path.\<close>

definition work ::
  "'c convolver_ops \<Rightarrow> 'c zeroConvolv \<Rightarrow> work_msg
    \<Rightarrow> LV2_Worker_Status \<times> 'c zeroConvolv \<times> effect list" where
  "work E self msg =
    (case msg of
       Cmd d \<Rightarrow>
         if d = CMD_APPLY then (LV2_WORKER_SUCCESS, self, [Respond])
         else if d = CMD_FREE then
           let queue_file = next_queued_file self;
               s1 = self\<lparr>clv_offline := None, next_queued_file := []\<rparr>
           in if queue_file \<noteq> []
              then (case load_ir_worker E s1 True queue_file of
                      (st, ok, s2, fx) \<Rightarrow> (st, s2, fx))
              else (LV2_WORKER_SUCCESS, s1, [])
         else (LV2_WORKER_ERR_UNKNOWN, self, [])
     | Load_path fn \<Rightarrow>
         (case load_ir_worker E self True fn of (st, ok, s1, fx) \<Rightarrow> (st, s1, fx)))"





text \<open>The events of the control port as \<open>run_cfg\<close> tells them apart: an atom that is no
  object, a \<open>patch:Get\<close>, a \<open>patch:Set\<close> with what \<open>parse_patch_msg\<close> returns for it (the body
  of the path atom, or null), any other object.\<close>

datatype control_event = Ev_no_object | Ev_patch_Get | Ev_patch_Set "string option" | Ev_object

fun control_events :: "'c convolver_ops \<Rightarrow> 'c zeroConvolv \<Rightarrow> control_event list \<Rightarrow> effect list" where
  "control_events E self [] = []"
| "control_events E self (Ev_patch_Get # evs) = inform_ui E self False @ control_events E self evs"
| "control_events E self (Ev_patch_Set None # evs) = control_events E self evs"
| "control_events E self (Ev_patch_Set (Some file_path) # evs) =
     (if length file_path < 1 \<or> length file_path > 1024 then control_events E self evs
      else Schedule (Load_path file_path) # control_events E self evs)"
| "control_events E self (ev # evs) = control_events E self evs"

text \<open>The gain interpolation of \<open>run_cfg\<close> without an engine: one step for every 64
  samples; the value of \<open>cur\<close> after the loop.\<close>

function interpolate_dry :: "real \<Rightarrow> real \<Rightarrow> nat \<Rightarrow> real \<Rightarrow> real" where
  "interpolate_dry alpha tgt remain cur =
    (if remain > 0
     then interpolate_dry alpha tgt (remain - min remain 64)
            (cur + (alpha * (tgt - cur) + 1 / 10 ^ 10))
     else cur)"
  by pat_completeness auto
termination
  by (relation "measure (\<lambda>(alpha, tgt, remain, cur). remain)") auto

text \<open>\<open>run_cfg\<close>, the run function of the Cfg variants.  \<open>ctrl0\<close>, \<open>ctrl1\<close>, \<open>ctrl2\<close> are
  the values at the three control ports.\<close>

definition run_cfg ::
  "'c convolver_ops \<Rightarrow> 'c zeroConvolv \<Rightarrow> control_event list \<Rightarrow> real \<Rightarrow> real \<Rightarrow> real \<Rightarrow> nat
    \<Rightarrow> 'c zeroConvolv \<times> effect list" where
  "run_cfg E self evs ctrl0 ctrl1 ctrl2 n_samples =
    (if \<not> has_control self \<or> \<not> has_notify self then (self, [])
     else
       let fx = control_events E self evs;
           s1 = self\<lparr>buffered := ctrl0 > 0\<rparr>;
           s2 = (if db_dry s1 \<noteq> ctrl1 \<or> db_wet s1 \<noteq> ctrl2
                 then let s = s1\<lparr>db_dry := ctrl1, db_wet := ctrl2, dry_target := db_to_coeff ctrl1\<rparr>
                      in (case clv_online s of
                            None \<Rightarrow> s
                          | Some c \<Rightarrow>
                              s\<lparr>clv_online :=
                                   Some (cv_set_output_gain E (dry_target s) (db_to_coeff ctrl2) True c),
                                 dry_coeff := dry_target s\<rparr>)
                 else s1)
       in case clv_online s2 of
            Some c \<Rightarrow>
              let s3 = run E s2 n_samples
              in (case clv_online s3 of
                    Some c' \<Rightarrow> (s3\<lparr>p_latency := cv_artificial_latency E c'\<rparr>, fx)
                  | None \<Rightarrow> (s3, fx))
          | None \<Rightarrow>
              let s3 = s2\<lparr>p_latency := 0\<rparr>
              in if dry_coeff s3 = dry_target s3 then (s3, fx)
                 else
                   let cur = interpolate_dry (tc64 s3) (dry_target s3) n_samples (dry_coeff s3)
                   in if \<bar>cur - dry_target s3\<bar> < 1 / 10 ^ 5
                      then (s3\<lparr>dry_coeff := dry_target s3\<rparr>, fx)
                      else (s3\<lparr>dry_coeff := cur\<rparr>, fx))"

text \<open>A small engine type for concrete runs: an engine is a number (the length of its
  path); the file \<open>bad.wav\<close> cannot be opened; every engine has latency 64 and artificial
  latency 7.\<close>

definition demo_ops :: "nat convolver_ops" where
  "demo_ops =
    \<lparr>cv_new = (\<lambda>p r pol pri cfg.
        if p = ''bad.wav'' then Inl (Runtime_error ''Error: cannot open IR file'')
        else Inr (length p)),
     cv_reconfigure = (\<lambda>bs c. c),
     cv_ready = (\<lambda>c. True),
     cv_latency = (\<lambda>c. 64),
     cv_artificial_latency = (\<lambda>c. 7),
     cv_sum_inputs = (\<lambda>c. False),
     cv_path = (\<lambda>c. replicate c CHR ''x''),
     cv_set_output_gain = (\<lambda>d w i c. c),
     cv_run = (\<lambda>m n c. c)\<rparr>"

text \<open>A CfgMono instance as \<open>instantiate\<close> leaves it (buffered, dry gain -60 dB), with
  both atom ports connected and no engine.\<close>

definition demo_plugin :: "nat zeroConvolv" where
  "demo_plugin =
    \<lparr>has_control = True, has_notify = True, p_latency = 0, buffered = True,
     db_dry = - 60, db_wet = 0, dry_coeff = 0, dry_target = 0,
     clv_online = None, clv_offline = None, pset_dirty = True, chn_cfg = Mono,
     rate = 48000, chn_in = 1, chn_out = 1, block_size = 64, rt_policy = 1, rt_priority = 50,
     tc64 = 2950 / 48000, next_queued_file = []\<rparr>"





section \<open>The partitioned convolver (zeta-convolver.cc): one level\<close>

text \<open>
  A complex number of FFTW is a pair of floats, a spectrum a list of them.  The two FFTW
  plans of a level are outside the repository: \<open>r2c\<close> takes \<open>2 * parsize\<close> samples to
  \<open>parsize + 1\<close> complex numbers, \<open>c2r\<close> back.
\<close>

type_synonym 'a spectrum = "('a \<times> 'a) list"

record 'a fftw =
  r2c :: "'a list \<Rightarrow> 'a spectrum"
  c2r :: "'a spectrum \<Rightarrow> 'a list"

text \<open>
  The nodes of a level.  A \<open>Macnode\<close> points to its \<open>Inpnode\<close>, which \<open>findmacnode\<close> takes
  from \<open>_inp_list\<close> by its input number: \<open>mac_inpn\<close> is that number.  \<open>mac_fftb\<close> is the array
  of \<open>_npar\<close> pointers to spectra, a null pointer being \<open>None\<close>; \<open>mac_link\<close> is the array of the
  linked node when \<open>_link\<close> is set.
\<close>

record 'a Inpnode =
  inp_inp :: nat
  inp_ffta :: "'a spectrum list"

record 'a Macnode =
  mac_inpn :: nat
  mac_link :: "'a spectrum option list option"
  mac_fftb :: "'a spectrum option list"

record 'a Outnode =
  out_out :: nat
  out_buff :: "'a list list"
  out_list :: "'a Macnode list"

datatype level_state = LV_IDLE | LV_TERM | LV_PROC

text \<open>
  The fields of \<open>Convlevel\<close>.  \<open>lv_done\<close> is the count of the semaphore \<open>_done\<close>.  The work
  buffers \<open>_time_data\<close>, \<open>_prep_data\<close> and \<open>_freq_data\<close> are written before they are read in
  every method, so they are local values here.  \<open>_inpbuff\<close> and \<open>_outbuff\<close> point to the
  buffers of the \<open>Convproc\<close>, which are passed to the methods that use them.
\<close>

record 'a Convlevel =
  lv_stat :: level_state
  lv_prio :: int
  lv_offs :: nat
  lv_npar :: nat
  lv_parsize :: nat
  lv_outsize :: nat
  lv_outoffs :: nat
  lv_inpsize :: nat
  lv_inpoffs :: nat
  lv_options :: "32 word"
  lv_ptind :: nat
  lv_opind :: nat
  lv_bits :: nat
  lv_wait :: nat
  lv_done :: nat
  lv_inp_list :: "'a Inpnode list"
  lv_out_list :: "'a Outnode list"

text \<open>The constructor, and \<open>configure\<close> when its allocations succeed.  The constructor
  leaves the offsets and indices without a value; they are 0 here, and \<open>reset\<close> sets them
  before they are read.\<close>

definition Convlevel_new :: "'a Convlevel" where
  "Convlevel_new =
    \<lparr>lv_stat = LV_IDLE, lv_prio = 0, lv_offs = 0, lv_npar = 0, lv_parsize = 0,
     lv_outsize = 0, lv_outoffs = 0, lv_inpsize = 0, lv_inpoffs = 0, lv_options = 0,
     lv_ptind = 0, lv_opind = 0, lv_bits = 0, lv_wait = 0, lv_done = 0,
     lv_inp_list = [], lv_out_list = []\<rparr>"

definition lv_configure :: "int \<Rightarrow> nat \<Rightarrow> nat \<Rightarrow> nat \<Rightarrow> 32 word \<Rightarrow> 'a Convlevel \<Rightarrow> 'a Convlevel" where
  "lv_configure prio offs npar parsize options lv =
    lv\<lparr>lv_prio := prio, lv_offs := offs, lv_npar := npar, lv_parsize := parsize,
       lv_options := options\<rparr>"

text \<open>\<open>_freq_data[k] += ffta[k] * fftb[k]\<close>, complex, for \<open>k \<le> _parsize\<close>.\<close>

definition cmac :: "('a::{plus,minus,times}) \<times> 'a \<Rightarrow> 'a \<times> 'a \<Rightarrow> 'a \<times> 'a \<Rightarrow> 'a \<times> 'a" where
  "cmac f a b =
    (fst f + (fst a * fst b - snd a * snd b), snd f + (fst a * snd b + snd a * fst b))"

definition mac_spectrum ::
  "nat \<Rightarrow> ('a::{plus,minus,times}) spectrum \<Rightarrow> 'a spectrum \<Rightarrow> 'a spectrum \<Rightarrow> 'a spectrum" where
  "mac_spectrum parsize freq ffta fftb =
    map (\<lambda>k. cmac (freq ! k) (ffta ! k) (fftb ! k)) [0..<parsize + 1]"

text \<open>
  The loop over the partitions of one \<open>Macnode\<close> in \<open>process\<close>:
  \<open>for (j = 0; j < _npar; j++)\<close> with the ring index \<open>i\<close>, which starts at \<open>_ptind\<close> and
  steps down, from 0 to \<open>_npar - 1\<close>.  \<open>n\<close> counts the iterations left.
\<close>

fun mac_partitions ::
  "nat \<Rightarrow> nat \<Rightarrow> ('a::{plus,minus,times}) spectrum list \<Rightarrow> 'a spectrum option list
    \<Rightarrow> nat \<Rightarrow> nat \<Rightarrow> nat \<Rightarrow> 'a spectrum \<Rightarrow> 'a spectrum" where
  "mac_partitions parsize npar ffta fftb j i 0 freq = freq"
| "mac_partitions parsize npar ffta fftb j i (Suc n) freq =
     (let freq' = (case fftb ! j of
                     None \<Rightarrow> freq
                   | Some b \<Rightarrow> mac_spectrum parsize freq (ffta ! i) b);
          i' = (if i = 0 then npar else i) - 1
      in mac_partitions parsize npar ffta fftb (Suc j) i' n freq')"

text \<open>One \<open>Macnode\<close> of an output: its input node \<open>X = M->_inpn\<close>, then the partitions.\<close>

definition mac_node ::
  "nat \<Rightarrow> nat \<Rightarrow> nat \<Rightarrow> ('a::{plus,minus,times}) Inpnode list \<Rightarrow> 'a spectrum \<Rightarrow> 'a Macnode
    \<Rightarrow> 'a spectrum" where
  "mac_node parsize npar ptind inps freq M =
    (case find (\<lambda>X. inp_inp X = mac_inpn M) inps of
       None \<Rightarrow> freq
     | Some X \<Rightarrow>
         mac_partitions parsize npar (inp_ffta X)
           (case mac_link M of Some l \<Rightarrow> l | None \<Rightarrow> mac_fftb M) 0 ptind npar freq)"

text \<open>The samples \<open>process\<close> copies to \<open>_time_data\<close> for the input buffer \<open>inpd\<close>: \<open>n1\<close>
  from \<open>i1\<close> on, \<open>n2\<close> from the start of the ring, then \<open>parsize\<close> zeros.\<close>

definition time_block :: "('a::zero) list \<Rightarrow> nat \<Rightarrow> nat \<Rightarrow> nat \<Rightarrow> nat \<Rightarrow> 'a list" where
  "time_block inpd i1 n1 n2 parsize =
    map (\<lambda>k. inpd ! (i1 + k)) [0..<n1] @ map (\<lambda>k. inpd ! k) [0..<n2] @ replicate parsize 0"

text \<open>The forward FFT of an input node into slot \<open>_ptind\<close> of its ring.\<close>

definition fft_input ::
  "'a fftw \<Rightarrow> ('a::zero) list list \<Rightarrow> nat \<Rightarrow> nat \<Rightarrow> nat \<Rightarrow> nat \<Rightarrow> nat \<Rightarrow> 'a Inpnode \<Rightarrow> 'a Inpnode" where
  "fft_input F inpbuff i1 n1 n2 parsize ptind X =
    X\<lparr>inp_ffta := (inp_ffta X)
        [ptind := r2c F (time_block (inpbuff ! inp_inp X) i1 n1 n2 parsize)]\<rparr>"

text \<open>An output node: the MAC over its nodes from a cleared \<open>_freq_data\<close>, the inverse
  FFT, the first half added to buffer \<open>opi1\<close>, the second half copied to buffer \<open>opi2\<close>.\<close>

definition convolve_output ::
  "'a fftw \<Rightarrow> nat \<Rightarrow> nat \<Rightarrow> nat \<Rightarrow> nat \<Rightarrow> nat \<Rightarrow> ('a::{zero,plus,minus,times}) Inpnode list
    \<Rightarrow> 'a Outnode \<Rightarrow> 'a Outnode" where
  "convolve_output F parsize npar ptind opi1 opi2 inps Y =
    (let freq = foldl (mac_node parsize npar ptind inps) (replicate (parsize + 1) (0, 0))
                  (out_list Y);
         t = c2r F freq;
         b1 = map (\<lambda>k. out_buff Y ! opi1 ! k + t ! k) [0..<parsize];
         b2 = map (\<lambda>k. t ! (parsize + k)) [0..<parsize]
     in Y\<lparr>out_buff := (out_buff Y)[opi1 := b1, opi2 := b2]\<rparr>)"

text \<open>\<open>Convlevel::process\<close>.  It reads the input buffers of the \<open>Convproc\<close>.\<close>

definition lv_process ::
  "'a fftw \<Rightarrow> ('a::{zero,plus,minus,times}) list list \<Rightarrow> 'a Convlevel \<Rightarrow> 'a Convlevel" where
  "lv_process F inpbuff lv =
    (let i1 = lv_inpoffs lv;
         parsize = lv_parsize lv;
         wraps = (i1 + parsize \<ge> lv_inpsize lv);
         inpoffs = (if wraps then i1 + parsize - lv_inpsize lv else i1 + parsize);
         n2 = (if wraps then inpoffs else 0);
         n1 = parsize - n2;
         opi1 = (lv_opind lv + 1) mod 3;
         opi2 = (lv_opind lv + 2) mod 3;
         inps = map (fft_input F inpbuff i1 n1 n2 parsize (lv_ptind lv)) (lv_inp_list lv);
         outs = map (convolve_output F parsize (lv_npar lv) (lv_ptind lv) opi1 opi2 inps)
                  (lv_out_list lv);
         ptind = (if lv_ptind lv + 1 = lv_npar lv then 0 else lv_ptind lv + 1)
     in lv\<lparr>lv_inpoffs := inpoffs, lv_inp_list := inps, lv_out_list := outs,
           lv_ptind := ptind\<rparr>)"

text \<open>
  The worker thread of a level runs \<open>Convlevel::main\<close>: it waits on \<open>_trig\<close>, leaves when
  the state is \<open>ST_TERM\<close>, and otherwise runs \<open>process\<close> and posts \<open>_done\<close>.  The model runs
  the threads one at a time: a post on \<open>_trig\<close> runs the waiting worker up to its next wait
  (\<open>worker_wake\<close>).  A wait on \<open>_done\<close> with count 0 then never returns: \<open>None\<close>.
\<close>

definition worker_wake ::
  "'a fftw \<Rightarrow> ('a::{zero,plus,minus,times}) list list \<Rightarrow> 'a Convlevel \<Rightarrow> 'a Convlevel" where
  "worker_wake F inpbuff lv =
    (if lv_stat lv = LV_TERM then lv\<lparr>lv_stat := LV_IDLE\<rparr>
     else (let lv' = lv_process F inpbuff lv in lv'\<lparr>lv_done := lv_done lv' + 1\<rparr>))"

text \<open>\<open>while (_wait) { _done.wait (); _wait--; }\<close>\<close>

definition await_done :: "'a Convlevel \<Rightarrow> 'a Convlevel option" where
  "await_done lv =
    (if lv_done lv < lv_wait lv then None
     else Some (lv\<lparr>lv_done := lv_done lv - lv_wait lv, lv_wait := 0\<rparr>))"

text \<open>\<open>if (++_opind == 3) _opind = 0\<close>\<close>

definition next_opind :: "nat \<Rightarrow> nat" where
  "next_opind opind = (if opind + 1 = 3 then 0 else opind + 1)"

text \<open>\<open>q[i] += p[i]\<close> for \<open>i < n\<close>, for every output node, with \<open>p = Y->_buff[opind] + outoffs\<close>
  and \<open>q = _outbuff[Y->_out]\<close>.\<close>

definition mix_node :: "nat \<Rightarrow> nat \<Rightarrow> nat \<Rightarrow> ('a::plus) list list \<Rightarrow> 'a Outnode \<Rightarrow> 'a list list" where
  "mix_node n opind outoffs outbuff Y =
    outbuff[out_out Y :=
      map (\<lambda>i. outbuff ! out_out Y ! i + out_buff Y ! opind ! (outoffs + i)) [0..<n]
      @ drop n (outbuff ! out_out Y)]"

definition mix_out :: "nat \<Rightarrow> nat \<Rightarrow> nat \<Rightarrow> 'a Outnode list \<Rightarrow> ('a::plus) list list \<Rightarrow> 'a list list" where
  "mix_out n opind outoffs Ys outbuff = foldl (mix_node n opind outoffs) outbuff Ys"

text \<open>\<open>Convlevel::readout\<close>: the value returned, the level and the output buffers.\<close>

definition lv_readout ::
  "'a fftw \<Rightarrow> ('a::{zero,plus,minus,times}) list list \<Rightarrow> 'a list list \<Rightarrow> 'a Convlevel
    \<Rightarrow> (nat \<times> 'a Convlevel \<times> 'a list list) option" where
  "lv_readout F inpbuff outbuff lv =
    (let lv1 = lv\<lparr>lv_outoffs := lv_outoffs lv + lv_outsize lv\<rparr>;
         cycle =
           (if lv_outoffs lv1 = lv_parsize lv1
            then (let lv2 = lv1\<lparr>lv_outoffs := 0\<rparr>
                  in if lv_stat lv2 = LV_PROC
                     then (case await_done lv2 of
                             None \<Rightarrow> None
                           | Some lv3 \<Rightarrow>
                               let lv4 = lv3\<lparr>lv_opind := next_opind (lv_opind lv3)\<rparr>;
                                   lv5 = worker_wake F inpbuff lv4
                               in Some (lv5\<lparr>lv_wait := lv_wait lv5 + 1\<rparr>))
                     else (let lv3 = lv_process F inpbuff lv2
                           in Some (lv3\<lparr>lv_opind := next_opind (lv_opind lv3)\<rparr>)))
            else Some lv1)
     in case cycle of
          None \<Rightarrow> None
        | Some lv' \<Rightarrow>
            Some (if lv_wait lv' > 1 then lv_bits lv' else 0, lv',
                  mix_out (lv_outsize lv') (lv_opind lv') (lv_outoffs lv') (lv_out_list lv')
                    outbuff))"

text \<open>\<open>Convlevel::readtail (n_samples)\<close>; it returns 0.\<close>

definition lv_readtail ::
  "nat \<Rightarrow> ('a::plus) list list \<Rightarrow> 'a Convlevel \<Rightarrow> ('a Convlevel \<times> 'a list list) option" where
  "lv_readtail n_samples outbuff lv =
    (let outoffs = lv_outoffs lv + lv_outsize lv
     in if outoffs = lv_parsize lv
        then (case await_done lv of
                None \<Rightarrow> None
              | Some lv' \<Rightarrow>
                  Some (lv', mix_out n_samples (next_opind (lv_opind lv)) 0 (lv_out_list lv')
                               outbuff))
        else Some (lv, mix_out n_samples (lv_opind lv) outoffs (lv_out_list lv) outbuff))"

text \<open>\<open>Convlevel::reset\<close>.  The rings and buffers of the nodes have \<open>_npar\<close> and 3 entries;
  all are cleared.  \<open>init (0, 0)\<close> sets the count of both semaphores to 0.\<close>

definition lv_reset :: "nat \<Rightarrow> nat \<Rightarrow> ('a::zero) Convlevel \<Rightarrow> 'a Convlevel" where
  "lv_reset inpsize outsize lv =
    (let parsize = lv_parsize lv;
         outoffs = (if parsize = outsize then 0 else parsize div 2)
     in lv\<lparr>lv_inpsize := inpsize, lv_outsize := outsize,
           lv_inp_list :=
             map (\<lambda>X. X\<lparr>inp_ffta := replicate (lv_npar lv) (replicate (parsize + 1) (0, 0))\<rparr>)
               (lv_inp_list lv),
           lv_out_list :=
             map (\<lambda>Y. Y\<lparr>out_buff := replicate 3 (replicate parsize 0)\<rparr>) (lv_out_list lv),
           lv_outoffs := outoffs,
           lv_inpoffs := (if parsize = outsize then 0 else inpsize - outoffs),
           lv_bits := parsize div outsize, lv_wait := 0, lv_ptind := 0, lv_opind := 0,
           lv_done := 0\<rparr>)"

text \<open>\<open>Convlevel::start\<close>: \<open>created\<close> says that \<open>pthread_create\<close> made the thread, which
  then enters \<open>main\<close> and sets the state.\<close>

definition lv_start :: "bool \<Rightarrow> 'a Convlevel \<Rightarrow> bool \<times> 'a Convlevel" where
  "lv_start created lv = (if created then (True, lv\<lparr>lv_stat := LV_PROC\<rparr>) else (False, lv))"

text \<open>\<open>Convlevel::stop\<close>: the post on \<open>_trig\<close> wakes the worker, which sees \<open>ST_TERM\<close>.\<close>

definition lv_stop ::
  "'a fftw \<Rightarrow> ('a::{zero,plus,minus,times}) list list \<Rightarrow> 'a Convlevel \<Rightarrow> 'a Convlevel" where
  "lv_stop F inpbuff lv =
    (if lv_stat lv \<noteq> LV_IDLE then worker_wake F inpbuff (lv\<lparr>lv_stat := LV_TERM\<rparr>) else lv)"

text \<open>\<open>Convlevel::impdata_clear\<close>: the node \<open>findmacnode (inp, out, false)\<close> finds, if any.\<close>

definition clear_fftb :: "nat \<Rightarrow> ('a::zero) Macnode \<Rightarrow> 'a Macnode" where
  "clear_fftb parsize M =
    (if mac_link M \<noteq> None \<or> mac_fftb M = [] then M
     else M\<lparr>mac_fftb := map (map_option (\<lambda>b. replicate (parsize + 1) (0, 0))) (mac_fftb M)\<rparr>)"

fun update_first :: "('b \<Rightarrow> bool) \<Rightarrow> ('b \<Rightarrow> 'b) \<Rightarrow> 'b list \<Rightarrow> 'b list" where
  "update_first P f [] = []"
| "update_first P f (x # xs) = (if P x then f x # xs else x # update_first P f xs)"

definition lv_impdata_clear :: "nat \<Rightarrow> nat \<Rightarrow> ('a::zero) Convlevel \<Rightarrow> 'a Convlevel" where
  "lv_impdata_clear inp out lv =
    (if find (\<lambda>X. inp_inp X = inp) (lv_inp_list lv) = None then lv
     else lv\<lparr>lv_out_list :=
       update_first (\<lambda>Y. out_out Y = out)
         (\<lambda>Y. Y\<lparr>out_list := update_first (\<lambda>M. mac_inpn M = inp) (clear_fftb (lv_parsize lv))
                               (out_list Y)\<rparr>)
         (lv_out_list lv)\<rparr>)"

text \<open>\<open>Convlevel::cleanup\<close> deletes the nodes, the plans and the work buffers.\<close>

definition lv_cleanup :: "'a Convlevel \<Rightarrow> 'a Convlevel" where
  "lv_cleanup lv = lv\<lparr>lv_inp_list := [], lv_out_list := []\<rparr>"

text \<open>
  \<open>Convlevel::impdata_write\<close>.  \<open>findmacnode (inp, out, true)\<close> makes the nodes that are
  missing and puts them at the head of their lists: an input node with a cleared ring of
  \<open>_npar\<close> spectra, an output node with three cleared buffers, a MAC node without an array
  (the empty list).
\<close>

definition make_nodes :: "nat \<Rightarrow> nat \<Rightarrow> ('a::zero) Convlevel \<Rightarrow> 'a Convlevel" where
  "make_nodes inp out lv =
    (let inps = (if find (\<lambda>X. inp_inp X = inp) (lv_inp_list lv) = None
                 then \<lparr>inp_inp = inp,
                       inp_ffta = replicate (lv_npar lv)
                                    (replicate (lv_parsize lv + 1) (0, 0))\<rparr> # lv_inp_list lv
                 else lv_inp_list lv);
         outs = (if find (\<lambda>Y. out_out Y = out) (lv_out_list lv) = None
                 then \<lparr>out_out = out,
                       out_buff = replicate 3 (replicate (lv_parsize lv) 0),
                       out_list = []\<rparr> # lv_out_list lv
                 else lv_out_list lv)
     in lv\<lparr>lv_inp_list := inps,
           lv_out_list :=
             update_first (\<lambda>Y. out_out Y = out)
               (\<lambda>Y. if find (\<lambda>M. mac_inpn M = inp) (out_list Y) = None
                    then Y\<lparr>out_list := \<lparr>mac_inpn = inp, mac_link = None, mac_fftb = []\<rparr>
                                            # out_list Y\<rparr>
                    else Y)
               outs\<rparr>)"

text \<open>The conversion of an unsigned number to a float, and \<open>norm = 0.5f / _parsize\<close>.\<close>

fun float_of_nat :: "nat \<Rightarrow> ('a::{zero,one,plus})" where
  "float_of_nat 0 = 0"
| "float_of_nat (Suc n) = float_of_nat n + 1"

definition impdata_norm :: "nat \<Rightarrow> ('a::{zero,one,plus,inverse})" where
  "impdata_norm parsize = (1 / (1 + 1)) / float_of_nat parsize"

text \<open>\<open>_prep_data\<close> for one partition: cleared, then \<open>_prep_data[j - i0] = norm * data[j * step]\<close>
  for \<open>j\<close> from \<open>j0 = max (0, i0)\<close> to \<open>j1 - 1\<close>, \<open>j1 = min (n, i1)\<close>.\<close>

definition prep_block ::
  "nat \<Rightarrow> ('a::{zero,times}) \<Rightarrow> 'a list \<Rightarrow> int \<Rightarrow> int \<Rightarrow> int \<Rightarrow> int \<Rightarrow> 'a list" where
  "prep_block parsize nrm data step n i0 i1 =
    (let j0 = (if i0 < 0 then 0 else i0);
         j1 = (if i1 > n then n else i1)
     in map (\<lambda>t. let j = int t + i0
                  in if j0 \<le> j \<and> j < j1 then nrm * data ! nat (j * step) else 0)
          [0..<2 * parsize])"

text \<open>\<open>fftb[j] += _freq_data[j]\<close> for \<open>j \<le> _parsize\<close>.\<close>

definition add_spectrum :: "nat \<Rightarrow> ('a::plus) spectrum \<Rightarrow> 'a spectrum \<Rightarrow> 'a spectrum" where
  "add_spectrum parsize fftb freq =
    map (\<lambda>j. (fst (fftb ! j) + fst (freq ! j), snd (fftb ! j) + snd (freq ! j)))
      [0..<parsize + 1]"

text \<open>The loop over the partitions \<open>k < _npar\<close> of the node, \<open>i0\<close> stepping by \<open>_parsize\<close>;
  the list holds the entries of \<open>M->_fftb\<close> from \<open>k\<close> on.  \<open>data\<close> is \<open>None\<close> for a null
  pointer.\<close>

fun write_partitions ::
  "'a fftw \<Rightarrow> nat \<Rightarrow> ('a::{zero,one,plus,times,inverse}) list option \<Rightarrow> int \<Rightarrow> bool \<Rightarrow> int \<Rightarrow> int
    \<Rightarrow> 'a spectrum option list \<Rightarrow> 'a spectrum option list" where
  "write_partitions F parsize data step create n i0 [] = []"
| "write_partitions F parsize data step create n i0 (fb # fbs) =
     (let i1 = i0 + int parsize;
          fb' = (if i0 < n \<and> i1 > 0
                 then (let fftb = (case fb of
                                     None \<Rightarrow>
                                       if create then Some (replicate (parsize + 1) (0, 0))
                                       else None
                                   | Some b \<Rightarrow> Some b)
                       in case fftb of
                            None \<Rightarrow> None
                          | Some b \<Rightarrow>
                              (case data of
                                 None \<Rightarrow> Some b
                               | Some d \<Rightarrow>
                                   Some (add_spectrum parsize b
                                     (r2c F (prep_block parsize (impdata_norm parsize) d step
                                               n i0 i1)))))
                 else fb)
      in fb' # write_partitions F parsize data step create n i1 fbs)"

text \<open>The node is left alone when it is linked, and, without \<open>create\<close>, when it has no
  array; with \<open>create\<close> a missing array is allocated (\<open>alloc_fftb\<close>: \<open>_npar\<close> null pointers).
  The indices \<open>n\<close>, \<open>i0\<close>, \<open>i1\<close> are \<open>int32_t\<close> in the code and integers here: the model is
  that of calls whose index arithmetic stays within 32 bits.\<close>

definition write_node ::
  "'a fftw \<Rightarrow> nat \<Rightarrow> nat \<Rightarrow> ('a::{zero,one,plus,times,inverse}) list option \<Rightarrow> int \<Rightarrow> bool \<Rightarrow> int
    \<Rightarrow> int \<Rightarrow> 'a Macnode \<Rightarrow> 'a Macnode" where
  "write_node F parsize npar data step create n i0 M =
    (if mac_link M \<noteq> None then M
     else if \<not> create \<and> mac_fftb M = [] then M
     else
       let fftb = (if mac_fftb M = [] then replicate npar None else mac_fftb M)
       in M\<lparr>mac_fftb := write_partitions F parsize data step create n i0 fftb\<rparr>)"

definition lv_impdata_write ::
  "'a fftw \<Rightarrow> nat \<Rightarrow> nat \<Rightarrow> int \<Rightarrow> ('a::{zero,one,plus,times,inverse}) list option \<Rightarrow> int \<Rightarrow> int
    \<Rightarrow> bool \<Rightarrow> 'a Convlevel \<Rightarrow> 'a Convlevel" where
  "lv_impdata_write F inp out step data ind0 ind1 create lv =
    (let n = ind1 - ind0;
         i0 = int (lv_offs lv) - ind0;
         i1 = i0 + int (lv_npar lv * lv_parsize lv)
     in if i0 \<ge> n \<or> i1 \<le> 0 then lv
        else
          let lv1 = (if create then make_nodes inp out lv else lv)
          in if find (\<lambda>X. inp_inp X = inp) (lv_inp_list lv1) = None then lv1
             else lv1\<lparr>lv_out_list :=
               update_first (\<lambda>Y. out_out Y = out)
                 (\<lambda>Y. Y\<lparr>out_list :=
                          update_first (\<lambda>M. mac_inpn M = inp)
                            (write_node F (lv_parsize lv) (lv_npar lv) data step create n i0)
                            (out_list Y)\<rparr>)
                 (lv_out_list lv1)\<rparr>)"

section \<open>The partitioned convolver: Convproc\<close>

text \<open>
  The enumerations of \<open>Convproc\<close> and the error codes of \<open>Converror\<close> are declared in
  zeta-convolver.h.  The limits and flags that zeta-convolver.cc uses are a parameter of
  the model, the record \<open>limits\<close>; \<open>zita_limits\<close> holds the values of libzita-convolver,
  the library that zeta-convolver.cc customises, for concrete runs.
\<close>

record limits =
  MAXINP :: nat
  MAXOUT :: nat
  MAXLEV :: nat
  MINPART :: nat
  MAXPART :: nat
  MAXDIVIS :: nat
  MINQUANT :: nat
  MAXQUANT :: nat
  OPT_LATE_CONTIN :: "32 word"
  FL_LOAD :: nat

definition zita_limits :: limits where
  "zita_limits =
    \<lparr>MAXINP = 64, MAXOUT = 64, MAXLEV = 8, MINPART = 64, MAXPART = 8192, MAXDIVIS = 16,
     MINQUANT = 16, MAXQUANT = 8192, OPT_LATE_CONTIN = 4, FL_LOAD = 0x01000000\<rparr>"

datatype proc_state = ST_IDLE | ST_STOP | ST_WAIT | ST_PROC

text \<open>What the \<open>int\<close> functions return besides flags: 0 or a code of \<open>Converror\<close>.\<close>

datatype status = Success | BAD_STATE | BAD_PARAM | MEM_ALLOC

text \<open>The fields of \<open>Convproc\<close>.  \<open>cp_convlev\<close> holds the \<open>_nlevels\<close> levels of the array
  \<open>_convlev\<close>, \<open>cp_inpbuff\<close> and \<open>cp_outbuff\<close> the \<open>_ninp\<close> and \<open>_nout\<close> buffers.\<close>

record 'a Convproc =
  cp_state :: proc_state
  cp_options :: "32 word"
  cp_ninp :: nat
  cp_nout :: nat
  cp_quantum :: nat
  cp_minpart :: nat
  cp_maxpart :: nat
  cp_latecnt :: nat
  cp_inpsize :: nat
  cp_inpoffs :: nat
  cp_outoffs :: nat
  cp_inpbuff :: "'a list list"
  cp_outbuff :: "'a list list"
  cp_convlev :: "'a Convlevel list"

text \<open>The constructor; the offsets and \<open>_inpsize\<close> have no value before \<open>configure\<close> and
  \<open>restart_process\<close> set them (0 here).\<close>

definition Convproc_new :: "'a Convproc" where
  "Convproc_new =
    \<lparr>cp_state = ST_IDLE, cp_options = 0, cp_ninp = 0, cp_nout = 0, cp_quantum = 0,
     cp_minpart = 0, cp_maxpart = 0, cp_latecnt = 0, cp_inpsize = 0, cp_inpoffs = 0,
     cp_outoffs = 0, cp_inpbuff = [], cp_outbuff = [], cp_convlev = []\<rparr>"

text \<open>\<open>memset (buf, 0, n * sizeof (float))\<close>\<close>

definition zero_fill :: "nat \<Rightarrow> ('a::zero) list \<Rightarrow> 'a list" where
  "zero_fill n buf = replicate n 0 @ drop n buf"

text \<open>\<open>stop_process (force)\<close>; without an argument \<open>force\<close> is false.\<close>

definition stop_process ::
  "'a fftw \<Rightarrow> bool \<Rightarrow> ('a::{zero,plus,minus,times}) Convproc \<Rightarrow> status \<times> 'a Convproc" where
  "stop_process F force s =
    (if cp_state s \<noteq> ST_PROC \<and> \<not> force then (BAD_STATE, s)
     else (Success, s\<lparr>cp_convlev := map (lv_stop F (cp_inpbuff s)) (cp_convlev s),
                      cp_state := ST_WAIT\<rparr>))"

text \<open>\<open>check_stop\<close>: true, with the state set to \<open>ST_STOP\<close>, when every level is idle.\<close>

definition check_stop :: "'a Convproc \<Rightarrow> bool \<times> 'a Convproc" where
  "check_stop s =
    (if \<forall>lv \<in> set (cp_convlev s). lv_stat lv = LV_IDLE then (True, s\<lparr>cp_state := ST_STOP\<rparr>)
     else (False, s))"

text \<open>\<open>cleanup\<close>.  It sleeps until \<open>check_stop\<close> holds; no worker changes its state while
  it sleeps, so with a level that is not idle it never returns.\<close>

definition cleanup :: "'a Convproc \<Rightarrow> 'a Convproc option" where
  "cleanup s =
    (case check_stop s of
       (False, s') \<Rightarrow> None
     | (True, s') \<Rightarrow>
         Some (s'\<lparr>cp_inpbuff := [], cp_outbuff := [], cp_convlev := [],
                  cp_state := ST_IDLE, cp_options := 0, cp_ninp := 0, cp_nout := 0,
                  cp_quantum := 0, cp_minpart := 0, cp_maxpart := 0, cp_latecnt := 0\<rparr>))"

text \<open>The loop of \<open>process\<close> over the levels: \<open>f |= _convlev[k]->readout ()\<close>.\<close>

fun readouts ::
  "'a fftw \<Rightarrow> ('a::{zero,plus,minus,times}) list list \<Rightarrow> nat \<Rightarrow> 'a list list
    \<Rightarrow> 'a Convlevel list \<Rightarrow> (nat \<times> 'a Convlevel list \<times> 'a list list) option" where
  "readouts F inpbuff f outbuff [] = Some (f, [], outbuff)"
| "readouts F inpbuff f outbuff (lv # lvs) =
     (case lv_readout F inpbuff outbuff lv of
        None \<Rightarrow> None
      | Some (r, lv', outbuff') \<Rightarrow>
          (case readouts F inpbuff (f OR r) outbuff' lvs of
             None \<Rightarrow> None
           | Some (f', lvs', outbuff'') \<Rightarrow> Some (f', lv' # lvs', outbuff'')))"

text \<open>\<open>Convproc::process\<close>: the flags returned and the new state; \<open>None\<close> when a readout
  never returns.\<close>

definition process ::
  "limits \<Rightarrow> 'a fftw \<Rightarrow> ('a::{zero,plus,minus,times}) Convproc \<Rightarrow> (nat \<times> 'a Convproc) option" where
  "process L F s =
    (if cp_state s \<noteq> ST_PROC then Some (0, s)
     else
       let inpoffs = cp_inpoffs s + cp_quantum s;
           s1 = s\<lparr>cp_inpoffs := (if inpoffs = cp_inpsize s then 0 else inpoffs),
                  cp_outoffs := cp_outoffs s + cp_quantum s\<rparr>
       in if cp_outoffs s1 = cp_minpart s1
          then
            (let s2 = s1\<lparr>cp_outoffs := 0,
                         cp_outbuff := map (zero_fill (cp_minpart s1)) (cp_outbuff s1)\<rparr>
             in case readouts F (cp_inpbuff s2) 0 (cp_outbuff s2) (cp_convlev s2) of
                  None \<Rightarrow> None
                | Some (f, lvs, outbuff) \<Rightarrow>
                    let s3 = s2\<lparr>cp_convlev := lvs, cp_outbuff := outbuff\<rparr>
                    in if f \<noteq> 0
                       then (let s4 = s3\<lparr>cp_latecnt := cp_latecnt s3 + 1\<rparr>
                             in if cp_latecnt s4 \<ge> 5
                                then Some (f OR FL_LOAD L,
                                       if NOT (cp_options s4) AND OPT_LATE_CONTIN L \<noteq> 0
                                       then snd (stop_process F False s4) else s4)
                                else Some (f, s4))
                       else Some (f, s3\<lparr>cp_latecnt := 0\<rparr>))
          else Some (0, s1))"

text \<open>The buffer and the offset in its output ring that \<open>readtail\<close> reads from: those of
  the next cycle when the level is at a cycle boundary.\<close>

definition tail_opind :: "'a Convlevel \<Rightarrow> nat" where
  "tail_opind lv =
    (if lv_outoffs lv + lv_outsize lv = lv_parsize lv then next_opind (lv_opind lv)
     else lv_opind lv)"

definition tail_outoffs :: "'a Convlevel \<Rightarrow> nat" where
  "tail_outoffs lv =
    (if lv_outoffs lv + lv_outsize lv = lv_parsize lv then 0
     else lv_outoffs lv + lv_outsize lv)"

text \<open>
  \<open>n_samples\<close> is an argument of the caller, and neither \<open>tailonly\<close> nor \<open>readtail\<close>
  compares it with the size of a buffer.  \<open>tail_in_bounds\<close> says that the loop of
  \<open>readtail (n_samples)\<close> stays within the buffers it reads and writes, \<open>sizes\<close> being the
  lengths of the output accumulators: for every output node, \<open>q = _outbuff[Y->_out]\<close> has
  \<open>n_samples\<close> floats, and \<open>p = Y->_buff[opind] + outoffs\<close> has \<open>n_samples\<close> floats left.
  An access outside a buffer is undefined in C++: the model stops there with
  \<open>OutOfBounds\<close>.
\<close>

definition tail_in_bounds :: "nat \<Rightarrow> nat list \<Rightarrow> 'a Convlevel \<Rightarrow> bool" where
  "tail_in_bounds n_samples sizes lv =
    list_all (\<lambda>Y. out_out Y < length sizes \<and> n_samples \<le> sizes ! out_out Y
                \<and> tail_opind lv < length (out_buff Y)
                \<and> tail_outoffs lv + n_samples \<le> length (out_buff Y ! tail_opind lv))
      (lv_out_list lv)"

text \<open>The loop of \<open>tailonly\<close> over the levels: \<open>f |= _convlev[k]->readtail (n_samples)\<close>,
  for \<open>k\<close> from 0 to \<open>_nlevels - 1\<close>; \<open>readtail\<close> returns 0.  \<open>None\<close> when a \<open>readtail\<close> never
  returns; a level waits before it touches a buffer.\<close>

fun readtails ::
  "nat \<Rightarrow> nat \<Rightarrow> ('a::plus) list list \<Rightarrow> 'a Convlevel list
    \<Rightarrow> (fault + nat \<times> 'a Convlevel list \<times> 'a list list) option" where
  "readtails n_samples f outbuff [] = Some (Inr (f, [], outbuff))"
| "readtails n_samples f outbuff (lv # lvs) =
     (case lv_readtail n_samples outbuff lv of
        None \<Rightarrow> None
      | Some (lv', outbuff') \<Rightarrow>
          if \<not> tail_in_bounds n_samples (map length outbuff) lv then Some (Inl OutOfBounds)
          else
            (case readtails n_samples (f OR 0) outbuff' lvs of
               None \<Rightarrow> None
             | Some (Inl e) \<Rightarrow> Some (Inl e)
             | Some (Inr (f', lvs', outbuff'')) \<Rightarrow> Some (Inr (f', lv' # lvs', outbuff''))))"

text \<open>\<open>Convproc::tailonly (n_samples)\<close>: the value returned and the new state, or
  \<open>OutOfBounds\<close> (the \<open>memset\<close> of \<open>n_samples\<close> floats needs \<open>n_samples\<close> floats in every output
  accumulator); \<open>None\<close> when it never returns.\<close>

definition tailonly ::
  "nat \<Rightarrow> ('a::{zero,plus}) Convproc \<Rightarrow> (fault + nat \<times> 'a Convproc) option" where
  "tailonly n_samples s =
    (if cp_state s \<noteq> ST_PROC then Some (Inr (0, s))
     else
       let outoffs = cp_outoffs s + cp_quantum s
       in if outoffs = cp_minpart s
          then
            if \<not> list_all (\<lambda>b. n_samples \<le> length b) (cp_outbuff s)
            then Some (Inl OutOfBounds)
            else (case readtails n_samples 0 (map (zero_fill n_samples) (cp_outbuff s))
                         (cp_convlev s) of
                    None \<Rightarrow> None
                  | Some (Inl e) \<Rightarrow> Some (Inl e)
                  | Some (Inr (f, lvs, outbuff)) \<Rightarrow>
                      Some (Inr (f, s\<lparr>cp_convlev := lvs, cp_outbuff := outbuff\<rparr>)))
          else Some (Inr (0, s)))"


section \<open>The processing step and the tail readout in the words of the specification\<close>

text \<open>
  The specification's MAC step, to compare with the loop of \<open>process\<close>: for
  \<open>j = 0 .. n_partitions - 1\<close>, multiply \<open>ffta[(ptind - j) mod n_partitions]\<close> with \<open>fftb[j]\<close>
  as complex numbers, bin by bin, and accumulate into \<open>freq_data\<close> (a partition without
  data is skipped).
\<close>

definition mac_step ::
  "nat \<Rightarrow> nat \<Rightarrow> nat \<Rightarrow> ('a::{plus,minus,times}) spectrum list \<Rightarrow> 'a spectrum option list
    \<Rightarrow> 'a spectrum \<Rightarrow> nat \<Rightarrow> 'a spectrum" where
  "mac_step parsize npar ptind ffta fftb freq j =
    (case fftb ! j of
       None \<Rightarrow> freq
     | Some b \<Rightarrow>
         let a = ffta ! nat ((int ptind - int j) mod int npar)
         in map (\<lambda>k. (fst (freq ! k) + (fst (a ! k) * fst (b ! k) - snd (a ! k) * snd (b ! k)),
                      snd (freq ! k) + (fst (a ! k) * snd (b ! k) + snd (a ! k) * fst (b ! k))))
              [0..<parsize + 1])"

definition mac_order_spec ::
  "nat \<Rightarrow> nat \<Rightarrow> nat \<Rightarrow> ('a::{plus,minus,times}) spectrum list \<Rightarrow> 'a spectrum option list
    \<Rightarrow> 'a spectrum \<Rightarrow> 'a spectrum" where
  "mac_order_spec parsize npar ptind ffta fftb freq =
    foldl (mac_step parsize npar ptind ffta fftb) freq [0..<npar]"

text \<open>\<open>freq_data\<close> of an output node after the MAC: cleared, then the MAC step for every
  MAC node of the output in turn, with the ring of the node's input.\<close>

definition freq_data_spec ::
  "nat \<Rightarrow> nat \<Rightarrow> nat \<Rightarrow> ('a::{zero,plus,minus,times}) Inpnode list \<Rightarrow> 'a Outnode \<Rightarrow> 'a spectrum" where
  "freq_data_spec parsize npar ptind inps Y =
    foldl (\<lambda>freq M.
             case find (\<lambda>X. inp_inp X = mac_inpn M) inps of
               None \<Rightarrow> freq
             | Some X \<Rightarrow>
                 mac_order_spec parsize npar ptind (inp_ffta X)
                   (case mac_link M of Some l \<Rightarrow> l | None \<Rightarrow> mac_fftb M) freq)
      (replicate (parsize + 1) (0, 0)) (out_list Y)"

text \<open>The newest input block of a level: the \<open>parsize\<close> samples of the input ring (of
  \<open>inpsize\<close> samples) from the level's offset on, padded with \<open>parsize\<close> zeros.\<close>

definition newest_block :: "('a::zero) list \<Rightarrow> nat \<Rightarrow> nat \<Rightarrow> nat \<Rightarrow> 'a list" where
  "newest_block inpd inpoffs inpsize parsize =
    map (\<lambda>k. if k < parsize then inpd ! ((inpoffs + k) mod inpsize) else 0) [0..<2 * parsize]"

text \<open>What \<open>readtail\<close> leaves of a level: at the end of its cycle the level has waited for
  the cycles it had triggered; nothing else changes.\<close>

definition after_readtail :: "'a Convlevel \<Rightarrow> 'a Convlevel" where
  "after_readtail lv =
    (if lv_outoffs lv + lv_outsize lv = lv_parsize lv
     then lv\<lparr>lv_done := lv_done lv - lv_wait lv, lv_wait := 0\<rparr>
     else lv)"

text \<open>The accumulators after the tail readout of the levels \<open>lvs\<close>, in order.\<close>

definition tails_mixed :: "nat \<Rightarrow> 'a Convlevel list \<Rightarrow> ('a::plus) list list \<Rightarrow> 'a list list" where
  "tails_mixed n lvs ob =
    foldl (\<lambda>ob lv. mix_out n (tail_opind lv) (tail_outoffs lv) (lv_out_list lv) ob) ob lvs"

text \<open>The samples that the tail readout adds to sample \<open>i\<close> of the accumulator of output
  \<open>out\<close>, in order: level by level, and in a level one for every output node of \<open>out\<close>,
  from the node's ring buffer and offset of the level's next readout.\<close>

definition tail_terms :: "nat \<Rightarrow> nat \<Rightarrow> 'a Convlevel list \<Rightarrow> 'a list" where
  "tail_terms out i lvs =
    concat (map (\<lambda>lv. map (\<lambda>Y. out_buff Y ! tail_opind lv ! (tail_outoffs lv + i))
                        (filter (\<lambda>Y. out_out Y = out) (lv_out_list lv))) lvs)"
section \<open>Convproc::configure\<close>

text \<open>Arithmetic on \<open>uint32_t\<close> wraps at \<open>2^32\<close>.\<close>

definition u32 :: "nat \<Rightarrow> nat" where
  "u32 x = x mod 2 ^ 32"

text \<open>
  The parameter check.  \<open>x & (x - 1)\<close> is 0 for \<open>x = 0\<close> in C (\<open>x - 1\<close> wraps) as it is here
  (\<open>x - 1\<close> stops at 0).
\<close>

definition bad_param :: "limits \<Rightarrow> nat \<Rightarrow> nat \<Rightarrow> nat \<Rightarrow> nat \<Rightarrow> nat \<Rightarrow> bool" where
  "bad_param L ninp nout quantum minpart maxpart =
    (ninp < 1 \<or> ninp > MAXINP L
     \<or> nout < 1 \<or> nout > MAXOUT L
     \<or> quantum AND (quantum - 1) \<noteq> 0
     \<or> quantum < MINQUANT L
     \<or> quantum > MAXQUANT L
     \<or> minpart AND (minpart - 1) \<noteq> 0
     \<or> minpart < MINPART L
     \<or> minpart < quantum
     \<or> minpart > u32 (MAXDIVIS L * quantum)
     \<or> maxpart AND (maxpart - 1) \<noteq> 0
     \<or> maxpart > MAXPART L
     \<or> maxpart < minpart)"

text \<open>
  The costs and the density are of type \<open>float\<close>.  The arithmetic of that type is a
  parameter of the model, the record \<open>floats\<close> over a type \<open>'f\<close> of float values: the
  conversions from \<open>uint32_t\<close> and from \<open>int\<close>, the product, the quotient and the two
  comparisons that \<open>configure\<close> uses.  \<open>exact_floats\<close> computes with real numbers, for
  concrete runs on values that a float holds exactly.
\<close>

record 'f floats =
  fl_of_nat :: "nat \<Rightarrow> 'f"
  fl_of_int :: "int \<Rightarrow> 'f"
  fl_mul :: "'f \<Rightarrow> 'f \<Rightarrow> 'f"
  fl_div :: "'f \<Rightarrow> 'f \<Rightarrow> 'f"
  fl_less :: "'f \<Rightarrow> 'f \<Rightarrow> bool"
  fl_le :: "'f \<Rightarrow> 'f \<Rightarrow> bool"

definition exact_floats :: "real floats" where
  "exact_floats =
    \<lparr>fl_of_nat = real, fl_of_int = real_of_int, fl_mul = (*), fl_div = (/),
     fl_less = (<), fl_le = (\<le>)\<rparr>"

text \<open>The static members \<open>_mac_cost = 1.0f\<close> and \<open>_fft_cost = 5.0f\<close>.\<close>

definition mac_cost :: "'f floats \<Rightarrow> 'f" where "mac_cost FL = fl_of_int FL 1"
definition fft_cost :: "'f floats \<Rightarrow> 'f" where "fft_cost FL = fl_of_int FL 5"

text \<open>\<open>while (size < minpart) { prio -= 1; size <<= 1; }\<close>.  The loop does not end when
  \<open>size\<close> is 0.  (The variable \<open>size\<close> of the source is \<open>psize\<close> here.)\<close>

partial_function (option) grow_size :: "nat \<Rightarrow> nat \<Rightarrow> int \<Rightarrow> (nat \<times> int) option" where
  "grow_size psize minpart prio =
    (if psize < minpart then grow_size (u32 (psize * 2)) minpart (prio - 1)
     else Some (psize, prio))"

text \<open>The number of partitions of a level: all that is left, or \<open>nmin\<close> when a larger
  partition size is allowed and the cost comparison \<open>cfft < d * cmac\<close> says so (\<open>d\<close> is
  an \<open>int\<close>, converted for the product).\<close>

definition choose_npar ::
  "'f floats \<Rightarrow> 'f \<Rightarrow> 'f \<Rightarrow> nat \<Rightarrow> nat \<Rightarrow> nat \<Rightarrow> nat \<Rightarrow> nat \<Rightarrow> nat" where
  "choose_npar FL c_fft c_mac maxpart psize nmin s npar =
    (if psize < maxpart \<and> npar > nmin
     then (let r = (2::int) ^ s;
               d = int npar - int nmin;
               d = d - (d + r - 1) div r
           in if fl_less FL c_fft (fl_mul FL (fl_of_int FL d) c_mac) then nmin else npar)
     else npar)"

text \<open>What the loop over the levels ends with: the levels and the last size; an exception
  of an allocation; or a step the language leaves undefined (a write past the \<open>MAXLEV\<close>
  entries of \<open>_convlev\<close>, a division by 0).\<close>

datatype 'x attempt = Ok 'x | Thrown | Undefined

text \<open>
  \<open>for (offs = pind = 0; offs < maxsize; pind++)\<close>.  \<open>room\<close> is the number of entries of
  \<open>_convlev\<close> from \<open>pind\<close> on; \<open>lev_ok pind\<close> says that the allocations of \<open>new Convlevel\<close> and
  of its \<open>configure\<close> succeed for level \<open>pind\<close>.
\<close>

fun plan_levels ::
  "'f floats \<Rightarrow> nat \<Rightarrow> (nat \<Rightarrow> bool) \<Rightarrow> 32 word \<Rightarrow> 'f \<Rightarrow> 'f \<Rightarrow> nat \<Rightarrow> nat \<Rightarrow> nat
    \<Rightarrow> nat \<Rightarrow> nat \<Rightarrow> nat \<Rightarrow> int \<Rightarrow> nat \<Rightarrow> nat \<Rightarrow> ('a Convlevel list \<times> nat) attempt" where
  "plan_levels FL 0 lev_ok options c_fft c_mac step maxsize maxpart pind offs psize prio s nmin =
     (if offs < maxsize then Undefined else Ok ([], psize))"
| "plan_levels FL (Suc room) lev_ok options c_fft c_mac step maxsize maxpart pind offs psize prio s nmin =
     (if \<not> offs < maxsize then Ok ([], psize)
      else if psize = 0 then Undefined
      else
        let npar = choose_npar FL c_fft c_mac maxpart psize nmin s
                     (u32 (maxsize - offs + psize - 1) div psize)
        in if \<not> lev_ok pind then Thrown
           else
             let lv = lv_configure prio offs npar psize options Convlevel_new;
                 offs' = u32 (offs + psize * npar);
                 more = (offs' < maxsize)
             in case plan_levels FL room lev_ok options c_fft c_mac step maxsize maxpart
                       (pind + 1) offs'
                       (if more then u32 (psize * 2 ^ s) else psize)
                       (if more then prio - int s else prio)
                       (if more then step else s)
                       (if more then (if step = 1 then 2 else 6) else nmin) of
                  Ok (lvs, psize1) \<Rightarrow> Ok (lv # lvs, psize1)
                | Thrown \<Rightarrow> Thrown
                | Undefined \<Rightarrow> Undefined)"

text \<open>
  \<open>Convproc::configure\<close>: the value returned and the new state; \<open>None\<close> when the call does
  not return or is undefined.  \<open>buf_ok\<close> says that the allocations of the input and output
  buffers succeed; the buffers have no content before \<open>reset\<close> (zeros here).  An exception
  in the loop over the levels reaches \<open>cleanup\<close> with the fields as they were.
\<close>

definition configure ::
  "limits \<Rightarrow> 'f floats \<Rightarrow> (nat \<Rightarrow> bool) \<Rightarrow> bool \<Rightarrow> nat \<Rightarrow> nat \<Rightarrow> nat \<Rightarrow> nat \<Rightarrow> nat \<Rightarrow> nat
    \<Rightarrow> 'f \<Rightarrow> ('a::zero) Convproc \<Rightarrow> (status \<times> 'a Convproc) option" where
  "configure L FL lev_ok buf_ok ninp nout maxsize quantum minpart maxpart density s =
    (if cp_state s \<noteq> ST_IDLE then Some (BAD_STATE, s)
     else if bad_param L ninp nout quantum minpart maxpart then Some (BAD_PARAM, s)
     else
       let nmin0 = (if ninp < nout then ninp else nout);
           density1 = (if fl_le FL density (fl_of_int FL 0)
                       then fl_div FL (fl_of_int FL 1) (fl_of_nat FL nmin0) else density);
           density2 = (if fl_less FL (fl_of_int FL 1) density1 then fl_of_int FL 1
                       else density1);
           c_fft = fl_mul FL (fft_cost FL) (fl_of_nat FL (u32 (ninp + nout)));
           c_mac = fl_mul FL
                     (fl_mul FL (fl_mul FL (mac_cost FL) (fl_of_nat FL ninp)) (fl_of_nat FL nout))
                     density2;
           step = (if fl_less FL c_fft (fl_mul FL (fl_of_int FL 4) c_mac) then 1 else 2);
           s0 = (if step = 2
                 then (if (maxpart div minpart) AND 0xAAAA \<noteq> 0 then 1 else 2)
                 else 1);
           nmin = (if s0 = 1 then 2 else 6) + (if minpart = quantum then 1 else 0)
       in case grow_size quantum minpart 0 of
            None \<Rightarrow> None
          | Some (psize, prio) \<Rightarrow>
              (case plan_levels FL (MAXLEV L) lev_ok (cp_options s) c_fft c_mac step maxsize maxpart
                      0 0 psize prio s0 nmin of
                 Undefined \<Rightarrow> None
               | Thrown \<Rightarrow>
                   (case cleanup s of None \<Rightarrow> None | Some s' \<Rightarrow> Some (MEM_ALLOC, s'))
               | Ok (lvs, psize1) \<Rightarrow>
                   let s1 = s\<lparr>cp_convlev := lvs, cp_ninp := ninp, cp_nout := nout,
                              cp_quantum := quantum, cp_minpart := minpart,
                              cp_maxpart := psize1, cp_latecnt := 0,
                              cp_inpsize := u32 (2 * psize1)\<rparr>
                   in if \<not> buf_ok
                      then (case cleanup s1 of
                              None \<Rightarrow> None
                            | Some s' \<Rightarrow> Some (MEM_ALLOC, s'))
                      else Some (Success,
                             s1\<lparr>cp_inpbuff := replicate ninp (replicate (cp_inpsize s1) 0),
                                cp_outbuff := replicate nout (replicate minpart 0),
                                cp_state := ST_STOP\<rparr>)))"

text \<open>Invariant I1 as the specification words it.\<close>

definition is_power_of_two :: "nat \<Rightarrow> bool" where
  "is_power_of_two x = (\<exists>k \<le> x. x = 2 ^ k)"

definition I1 :: "limits \<Rightarrow> nat \<Rightarrow> nat \<Rightarrow> nat \<Rightarrow> bool" where
  "I1 L quantum minpart maxpart =
    (quantum \<le> minpart \<and> minpart \<le> maxpart \<and> maxpart \<le> MAXPART L
     \<and> is_power_of_two quantum \<and> is_power_of_two minpart \<and> is_power_of_two maxpart)"

text \<open>Stand-ins for the two plans in concrete runs (the theorems hold for every pair of
  transforms), and small convolvers over integer samples.\<close>

definition demo_fftw :: "('a::zero) fftw" where
  "demo_fftw = \<lparr>r2c = (\<lambda>t. map (\<lambda>x. (x, 0)) t), c2r = (\<lambda>f. map fst f @ map snd f)\<rparr>"

text \<open>A level of partition size 2 read in blocks of 1, with two triggered cycles not yet
  waited for, in the middle of its cycle.\<close>

definition demo_late_level :: "int Convlevel" where
  "demo_late_level =
    Convlevel_new\<lparr>lv_stat := LV_PROC, lv_npar := 1, lv_parsize := 2, lv_outsize := 1,
      lv_inpsize := 4, lv_bits := 2, lv_wait := 2, lv_done := 2\<rparr>"

definition demo_late_proc :: "int Convproc" where
  "demo_late_proc =
    Convproc_new\<lparr>cp_state := ST_PROC, cp_ninp := 1, cp_nout := 1, cp_quantum := 1,
      cp_minpart := 1, cp_maxpart := 2, cp_latecnt := 4, cp_inpsize := 4,
      cp_inpbuff := [[0, 0, 0, 0]], cp_outbuff := [[3]], cp_convlev := [demo_late_level]\<rparr>"

text \<open>A convolver with one level, the one of the smallest partition size (1, the quantum):
  one output node whose three buffers hold 7, 5 and 9.\<close>

definition demo_tail_level :: "int Convlevel" where
  "demo_tail_level =
    Convlevel_new\<lparr>lv_npar := 1, lv_parsize := 1, lv_outsize := 1, lv_inpsize := 2,
      lv_bits := 1,
      lv_out_list := [\<lparr>out_out = 0, out_buff = [[7], [5], [9]], out_list = []\<rparr>]\<rparr>"

definition demo_tail_proc :: "int Convproc" where
  "demo_tail_proc =
    Convproc_new\<lparr>cp_state := ST_PROC, cp_ninp := 1, cp_nout := 1, cp_quantum := 1,
      cp_minpart := 1, cp_maxpart := 1, cp_inpsize := 2,
      cp_inpbuff := [[0, 0]], cp_outbuff := [[3]], cp_convlev := [demo_tail_level]\<rparr>"


text \<open>A convolver with two levels (partition sizes 1 and 2) and two outputs, read in
  blocks of 1.  The first level is at the end of its cycle and has two output nodes; the
  second is in the middle of its cycle and has one node, for output 0.\<close>

definition demo_tail2_proc :: "int Convproc" where
  "demo_tail2_proc =
    Convproc_new\<lparr>cp_state := ST_PROC, cp_ninp := 1, cp_nout := 2, cp_quantum := 1,
      cp_minpart := 1, cp_maxpart := 2, cp_inpsize := 4,
      cp_inpbuff := [[0, 0, 0, 0]], cp_outbuff := [[3], [8]],
      cp_convlev :=
        [Convlevel_new\<lparr>lv_stat := LV_PROC, lv_npar := 1, lv_parsize := 1, lv_outsize := 1,
           lv_inpsize := 4, lv_bits := 1, lv_wait := 1, lv_done := 1,
           lv_out_list := [\<lparr>out_out = 0, out_buff = [[7], [5], [9]], out_list = []\<rparr>,
                           \<lparr>out_out = 1, out_buff = [[1], [2], [4]], out_list = []\<rparr>]\<rparr>,
         Convlevel_new\<lparr>lv_stat := LV_PROC, lv_npar := 1, lv_parsize := 2, lv_outsize := 1,
           lv_inpsize := 4, lv_bits := 2, lv_wait := 1, lv_done := 1,
           lv_out_list := [\<lparr>out_out = 0, out_buff = [[10, 20], [30, 40], [50, 60]],
                             out_list = []\<rparr>]\<rparr>]\<rparr>"

text \<open>A level with a ring of three partitions of size 1, one input and one output with
  one MAC node, whose second partition has no data; the ring index is 1.\<close>

definition demo_mac_level :: "int Convlevel" where
  "demo_mac_level =
    Convlevel_new\<lparr>lv_npar := 3, lv_parsize := 1, lv_outsize := 1, lv_inpsize := 2,
      lv_inpoffs := 1, lv_ptind := 1,
      lv_inp_list := [\<lparr>inp_inp = 0,
                        inp_ffta = [[(8, 8), (8, 8)], [(0, 0), (0, 0)], [(1, 2), (3, 4)]]\<rparr>],
      lv_out_list :=
        [\<lparr>out_out = 0, out_buff = [[7], [5], [9]],
          out_list = [\<lparr>mac_inpn = 0, mac_link = None,
                       mac_fftb = [Some [(10, 1), (2, 0)], None, Some [(100, 3), (1, 1)]]\<rparr>]\<rparr>]\<rparr>"
section \<open>Properties of the time-domain convolver\<close>

lemma tdc_configure_enabled:
  "tdc_configure r gain delay t = Inr t' \<Longrightarrow> tdc_enabled t' = tdc_enabled t"
  by (auto simp: tdc_configure_def Let_def split: if_splits)

lemma tdc_apply_disabled:
  "tdc_apply c t = Inr t' \<Longrightarrow> \<not> tdc_enabled t \<Longrightarrow> \<not> tdc_enabled t'"
  by (cases c) (auto simp: tdc_reset_def dest: tdc_configure_enabled)

lemma tdc_calls_disabled:
  "tdc_calls cs t = Inr t' \<Longrightarrow> \<not> tdc_enabled t \<Longrightarrow> \<not> tdc_enabled t'"
proof (induction cs arbitrary: t)
  case Nil
  then show ?case by simp
next
  case (Cons c cs)
  then obtain t1 where c: "tdc_apply c t = Inr t1" and r: "tdc_calls cs t1 = Inr t'"
    by (auto split: sum.splits)
  from tdc_apply_disabled [OF c Cons.prems(2)] Cons.IH [OF r] show ?case by blast
qed

text \<open>
  C5.  The time-domain convolver is never enabled: \<open>reset\<close> clears \<open>_enabled\<close>,
  \<open>configure\<close> leaves it as it is, and a configure with delay 0 returns before it reads
  anything.  So after the constructor and any sequence of \<open>reset\<close> and \<open>configure\<close> calls,
  \<open>run (out, in, n)\<close> returns with \<open>out\<close> as it was, for every \<open>out\<close>, \<open>in\<close> and \<open>n\<close>.
\<close>

theorem tdc_permanently_disabled:
  fixes cs :: "('a::{zero,one,plus,times}) tdc_call list"
  assumes "tdc_calls cs tdc_new = Inr t"
  shows "\<not> tdc_enabled t \<and> tdc_run t out inp n = Inr out
    \<and> \<not> tdc_enabled (tdc_reset t0) \<and> tdc_configure r gain 0 t = Inr t"
proof -
  have "\<not> tdc_enabled (tdc_new :: 'a tdc)" by (simp add: tdc_new_def)
  with assms have d: "\<not> tdc_enabled t" by (rule tdc_calls_disabled)
  then have "tdc_run t out inp n = Inr out" by (simp add: tdc_run_def)
  moreover have "\<not> tdc_enabled (tdc_reset t0)" by (simp add: tdc_reset_def)
  moreover have "tdc_configure r gain 0 t = Inr t" by (simp add: tdc_configure_def Let_def)
  ultimately show ?thesis using d by simp
qed

lemma tdc_example_calls:
  "tdc_calls [Configure (list_source [1, 2, 3] 48000) 2 3, Reset,
              Configure (list_source [5, 7] 44100) 1 1] (tdc_new :: int tdc)
     = Inr \<lparr>tdc_enabled = False, tdc_ir = 0 # 5 # replicate 62 0\<rparr>"
  by (simp add: tdc_new_def tdc_configure_def tdc_reset_def list_source_def store_at_def Let_def)

theorem tdc_permanently_disabled_witness:
  "tdc_calls [Configure (list_source [1, 2, 3] 48000) 2 3, Reset,
              Configure (list_source [5, 7] 44100) 1 1] (tdc_new :: int tdc)
     = Inr \<lparr>tdc_enabled = False, tdc_ir = 0 # 5 # replicate 62 0\<rparr>
   \<and> tdc_run \<lparr>tdc_enabled = False, tdc_ir = 0 # 5 # replicate 62 (0::int)\<rparr> [9, 8, 7] [1, 1, 1] 3
     = Inr [9, 8, 7]"
proof
  show "tdc_calls [Configure (list_source [1, 2, 3] 48000) 2 3, Reset,
              Configure (list_source [5, 7] 44100) 1 1] (tdc_new :: int tdc)
     = Inr \<lparr>tdc_enabled = False, tdc_ir = 0 # 5 # replicate 62 0\<rparr>"
    by (rule tdc_example_calls)
  from tdc_permanently_disabled [OF tdc_example_calls, of "[9, 8, 7]" "[1, 1, 1]" 3]
  show "tdc_run \<lparr>tdc_enabled = False, tdc_ir = 0 # 5 # replicate 62 (0::int)\<rparr> [9, 8, 7] [1, 1, 1] 3
     = Inr [9, 8, 7]"
    by (rule conjunct2 [THEN conjunct1])
qed

section \<open>Properties of the plugin: failed loads, the queue, the latency port\<close>






text \<open>The demo instance with engine 5 online, through one load cycle.\<close>

lemma demo_load_bad:
  "work demo_ops (demo_plugin\<lparr>clv_online := Some 5\<rparr>) (Load_path ''bad.wav'')
   = (LV2_WORKER_ERR_UNKNOWN, demo_plugin\<lparr>clv_online := Some 5\<rparr>, [New_Convolver ''bad.wav''])"
  by (simp add: work_def load_ir_worker_def demo_plugin_def demo_ops_def)

lemma demo_response_nothing_offline:
  "work_response demo_ops (demo_plugin\<lparr>clv_online := Some 5\<rparr>)
   = (demo_plugin\<lparr>clv_online := Some 5\<rparr>, [])"
  by (simp add: work_response_def demo_plugin_def)





text \<open>
  C1, as stated, fails: after a failed construction nothing is scheduled.
  With engine 5 online, loading \<open>bad.wav\<close> fails, leaves the instance as it was and has no
  effect but the constructor call; a \<open>work_response\<close> on that instance (no offline engine,
  empty queue) schedules no \<open>FREE\<close>.
\<close>

theorem failed_load_schedules_no_free:
  "work demo_ops (demo_plugin\<lparr>clv_online := Some 5\<rparr>) (Load_path ''bad.wav'')
     = (LV2_WORKER_ERR_UNKNOWN, demo_plugin\<lparr>clv_online := Some 5\<rparr>, [New_Convolver ''bad.wav''])
   \<and> clv_offline (demo_plugin\<lparr>clv_online := Some 5\<rparr>) = None
   \<and> Schedule (Cmd CMD_FREE)
       \<notin> set (snd (work_response demo_ops (demo_plugin\<lparr>clv_online := Some 5\<rparr>)))"
  by (simp add: demo_load_bad demo_response_nothing_offline) (simp add: demo_plugin_def)

text \<open>
  C1, amended.  When no offline engine exists and the construction for a requested path
  fails (the constructor throws, or the engine is not ready after \<open>reconfigure\<close>),
  \<open>load_ir_worker\<close> returns an error and leaves the whole instance as it was, so
  \<open>clv_online\<close> is not swapped and no offline engine is attached; it sends no response and
  schedules nothing.  Every \<open>work_response\<close> call with \<open>clv_offline = NULL\<close> leaves the
  instance as it was, so \<open>run\<close> goes on with the same online engine, and it schedules a
  \<open>FREE\<close> command exactly when a path is queued.
\<close>

theorem failed_load_no_swap:
  assumes "clv_offline self = None"
    and "(\<exists>e. cv_new E p (rate self) (rt_policy self) (rt_priority self) (chn_cfg self) = Inl e)
       \<or> (\<exists>c. cv_new E p (rate self) (rt_policy self) (rt_priority self) (chn_cfg self) = Inr c
             \<and> \<not> cv_ready E (cv_reconfigure E (block_size self) c))"
  shows "load_ir_worker E self resp p
           = (LV2_WORKER_ERR_UNKNOWN, False, self, [New_Convolver p])
    \<and> work E self (Load_path p) = (LV2_WORKER_ERR_UNKNOWN, self, [New_Convolver p])
    \<and> work_response E self
           = (self, if next_queued_file self \<noteq> [] then [Schedule (Cmd CMD_FREE)] else [])
    \<and> clv_online (fst (work_response E self)) = clv_online self
    \<and> run E (fst (work_response E self)) n = run E self n"
proof -
  have same: "self\<lparr>clv_offline := None\<rparr> = self" using assms(1) by simp
  from assms have l: "\<And>r. load_ir_worker E self r p
      = (LV2_WORKER_ERR_UNKNOWN, False, self\<lparr>clv_offline := None\<rparr>, [New_Convolver p])"
    by (auto simp: load_ir_worker_def Let_def)
  have w: "work_response E self
           = (self, if next_queued_file self \<noteq> [] then [Schedule (Cmd CMD_FREE)] else [])"
    using assms(1) by (simp add: work_response_def)
  show ?thesis using l w same by (simp add: work_def)
qed

theorem failed_load_no_swap_witness:
  "clv_offline (demo_plugin\<lparr>clv_online := Some 5, next_queued_file := ''c.wav''\<rparr>) = None
   \<and> cv_new demo_ops ''bad.wav'' 48000 1 50 Mono = Inl (Runtime_error ''Error: cannot open IR file'')
   \<and> work demo_ops (demo_plugin\<lparr>clv_online := Some 5, next_queued_file := ''c.wav''\<rparr>)
        (Load_path ''bad.wav'')
       = (LV2_WORKER_ERR_UNKNOWN,
          demo_plugin\<lparr>clv_online := Some 5, next_queued_file := ''c.wav''\<rparr>,
          [New_Convolver ''bad.wav''])
   \<and> work_response demo_ops (demo_plugin\<lparr>clv_online := Some 5, next_queued_file := ''c.wav''\<rparr>)
       = (demo_plugin\<lparr>clv_online := Some 5, next_queued_file := ''c.wav''\<rparr>,
          [Schedule (Cmd CMD_FREE)])"
proof -
  let ?s = "demo_plugin\<lparr>clv_online := Some 5, next_queued_file := ''c.wav''\<rparr>"
  have off: "clv_offline ?s = None" by (simp add: demo_plugin_def)
  have new: "cv_new demo_ops ''bad.wav'' 48000 1 50 Mono
      = Inl (Runtime_error ''Error: cannot open IR file'')"
    by (simp add: demo_ops_def)
  have fail: "(\<exists>e. cv_new demo_ops ''bad.wav'' (rate ?s) (rt_policy ?s) (rt_priority ?s) (chn_cfg ?s) = Inl e)
       \<or> (\<exists>c. cv_new demo_ops ''bad.wav'' (rate ?s) (rt_policy ?s) (rt_priority ?s) (chn_cfg ?s) = Inr c
             \<and> \<not> cv_ready demo_ops (cv_reconfigure demo_ops (block_size ?s) c))"
    by (simp add: demo_ops_def)
  have q: "next_queued_file ?s \<noteq> []" by simp
  from failed_load_no_swap [OF off fail, of True 64] off new q show ?thesis by simp
qed












lemma run_latency:
  "clv_online self = Some c \<Longrightarrow>
   p_latency (run E self n)
     = cv_artificial_latency E c + (if buffered self then cv_latency E c else 0)"
  by (simp add: run_def Let_def)

text \<open>
  C3 does not hold for the Cfg variants.  \<open>run_cfg\<close> calls \<open>run\<close>, which stores the latency
  the claim states, and then overwrites the port with the artificial latency alone: for
  every \<open>run_cfg\<close> call with an online engine (and both atom ports connected) the latency
  port holds the artificial latency of the engine, in buffered mode too.
\<close>

theorem run_cfg_latency_artificial_only:
  assumes "clv_online self = Some c" and "has_control self" and "has_notify self"
  shows "\<exists>c'. clv_online (fst (run_cfg E self evs ctrl0 ctrl1 ctrl2 n)) = Some c' \<and>
     p_latency (fst (run_cfg E self evs ctrl0 ctrl1 ctrl2 n)) = cv_artificial_latency E c'"
  using assms by (auto simp: run_cfg_def run_def Let_def split: option.splits)

text \<open>The failing input: a CfgMono instance in buffered mode (control port 0 at 1), its
  engine with latency 64 and artificial latency 7.  \<open>run\<close> alone reports 71, \<open>run_cfg\<close>
  reports 7.\<close>

theorem run_cfg_buffered_latency_example:
  "buffered (fst (run_cfg demo_ops (demo_plugin\<lparr>clv_online := Some 5\<rparr>) [] 1 (- 60) 0 64))
   \<and> p_latency (fst (run_cfg demo_ops (demo_plugin\<lparr>clv_online := Some 5\<rparr>) [] 1 (- 60) 0 64)) = 7
   \<and> p_latency (run demo_ops (demo_plugin\<lparr>clv_online := Some 5\<rparr>) 64) = 71
   \<and> cv_latency demo_ops 5 + cv_artificial_latency demo_ops 5 = 71"
proof -
  let ?s = "demo_plugin\<lparr>clv_online := Some 5\<rparr>"
  have h: "clv_online ?s = Some 5" "has_control ?s" "has_notify ?s"
    by (simp_all add: demo_plugin_def)
  from run_cfg_latency_artificial_only [OF h, of demo_ops "[]" 1 "- 60" 0 64]
  have "p_latency (fst (run_cfg demo_ops ?s [] 1 (- 60) 0 64)) = 7"
    by (auto simp: demo_ops_def)
  moreover have "buffered (fst (run_cfg demo_ops ?s [] 1 (- 60) 0 64))"
    by (simp add: run_cfg_def run_def demo_plugin_def demo_ops_def Let_def)
  moreover have "p_latency (run demo_ops ?s 64) = 71"
    by (simp add: run_def demo_plugin_def demo_ops_def Let_def)
  moreover have "cv_latency demo_ops 5 + cv_artificial_latency demo_ops 5 = 71"
    by (simp add: demo_ops_def)
  ultimately show ?thesis by blast
qed

section \<open>Properties of the Convolver constructor\<close>











section \<open>Properties of a level: the ring index and the partition order\<close>

lemma lv_process_ptind:
  "lv_ptind (lv_process F inpbuff lv)
     = (if lv_ptind lv + 1 = lv_npar lv then 0 else lv_ptind lv + 1)"
  by (simp add: lv_process_def Let_def)

lemma step_mod:
  "p < (n::nat) \<Longrightarrow> (if p + 1 = n then 0 else p + 1) = (p + 1) mod n"
  by auto

lemma lv_readout_ptind:
  assumes "lv_readout F inpbuff outbuff lv = Some (r, lv', ob)"
  shows "lv_ptind lv' =
     (if lv_outoffs lv + lv_outsize lv = lv_parsize lv
      then lv_ptind (lv_process F inpbuff lv) else lv_ptind lv)"
  using assms
  by (auto simp: lv_readout_def Let_def await_done_def worker_wake_def lv_process_ptind
      split: if_splits option.splits)

lemma lv_readtail_ptind:
  assumes "lv_readtail n outbuff lv = Some (lv', ob)"
  shows "lv_ptind lv' = lv_ptind lv"
  using assms
  by (auto simp: lv_readtail_def Let_def await_done_def split: if_splits option.splits)

text \<open>
  C9 (invariant I6).  With the ring index in range, one execution of the processing step
  of a level takes \<open>_ptind\<close> to \<open>(_ptind + 1) mod _npar\<close>.  \<open>reset\<close> sets it to 0.  No other
  method of the level changes it: \<open>configure\<close>, \<open>impdata_write\<close>, \<open>impdata_clear\<close>,
  \<open>start\<close>, \<open>stop\<close>, \<open>cleanup\<close> and \<open>readtail\<close> leave it as it is, and \<open>readout\<close> changes
  it only by the one processing step it runs (itself, or its worker) at a cycle boundary.
\<close>

theorem ptind_advances_once_per_cycle:
  fixes lv :: "('a::{zero,one,plus,minus,times,inverse}) Convlevel"
  assumes "lv_ptind lv < lv_npar lv"
  shows "lv_ptind (lv_process F inpbuff lv) = (lv_ptind lv + 1) mod lv_npar lv
    \<and> lv_ptind (lv_reset inpsize outsize lv) = 0
    \<and> lv_ptind (lv_configure prio offs npar parsize options lv) = lv_ptind lv
    \<and> lv_ptind (snd (lv_start created lv)) = lv_ptind lv
    \<and> lv_ptind (lv_stop F inpbuff lv) = lv_ptind lv
    \<and> lv_ptind (lv_impdata_write F inp out step data ind0 ind1 create lv) = lv_ptind lv
    \<and> lv_ptind (lv_impdata_clear inp out lv) = lv_ptind lv
    \<and> lv_ptind (lv_cleanup lv) = lv_ptind lv
    \<and> (\<forall>lv' ob. lv_readtail n outbuff lv = Some (lv', ob) \<longrightarrow> lv_ptind lv' = lv_ptind lv)
    \<and> (\<forall>r lv' ob. lv_readout F inpbuff outbuff lv = Some (r, lv', ob) \<longrightarrow>
          lv_ptind lv' = (if lv_outoffs lv + lv_outsize lv = lv_parsize lv
                          then (lv_ptind lv + 1) mod lv_npar lv else lv_ptind lv))"
proof -
  have p: "lv_ptind (lv_process F inpbuff lv) = (lv_ptind lv + 1) mod lv_npar lv"
    using step_mod [OF assms] by (simp add: lv_process_ptind)
  have "lv_ptind (lv_reset inpsize outsize lv) = 0" by (simp add: lv_reset_def Let_def)
  moreover have "lv_ptind (lv_configure prio offs npar parsize options lv) = lv_ptind lv"
    by (simp add: lv_configure_def)
  moreover have "lv_ptind (snd (lv_start created lv)) = lv_ptind lv"
    by (simp add: lv_start_def)
  moreover have "lv_ptind (lv_stop F inpbuff lv) = lv_ptind lv"
    by (simp add: lv_stop_def worker_wake_def)
  moreover have "lv_ptind (lv_impdata_write F inp out step data ind0 ind1 create lv) = lv_ptind lv"
    by (simp add: lv_impdata_write_def make_nodes_def Let_def)
  moreover have "lv_ptind (lv_impdata_clear inp out lv) = lv_ptind lv"
    by (simp add: lv_impdata_clear_def)
  moreover have "lv_ptind (lv_cleanup lv) = lv_ptind lv"
    by (simp add: lv_cleanup_def)
  moreover have "\<forall>lv' ob. lv_readtail n outbuff lv = Some (lv', ob) \<longrightarrow> lv_ptind lv' = lv_ptind lv"
    using lv_readtail_ptind by blast
  moreover have "\<forall>r lv' ob. lv_readout F inpbuff outbuff lv = Some (r, lv', ob) \<longrightarrow>
          lv_ptind lv' = (if lv_outoffs lv + lv_outsize lv = lv_parsize lv
                          then (lv_ptind lv + 1) mod lv_npar lv else lv_ptind lv)"
    using lv_readout_ptind [of F inpbuff outbuff lv] p by auto
  ultimately show ?thesis using p by blast
qed

theorem ptind_advances_once_per_cycle_witness:
  "lv_ptind (Convlevel_new\<lparr>lv_npar := 3, lv_ptind := 2\<rparr> :: real Convlevel) < 3
   \<and> lv_ptind (lv_process demo_fftw []
         (Convlevel_new\<lparr>lv_npar := 3, lv_ptind := 2\<rparr> :: real Convlevel)) = 0
   \<and> lv_ptind (lv_process demo_fftw []
         (Convlevel_new\<lparr>lv_npar := 3, lv_ptind := 1\<rparr> :: real Convlevel)) = 2"
proof -
  let ?a = "Convlevel_new\<lparr>lv_npar := 3, lv_ptind := 2\<rparr> :: real Convlevel"
  let ?b = "Convlevel_new\<lparr>lv_npar := 3, lv_ptind := 1\<rparr> :: real Convlevel"
  have a: "lv_ptind ?a < lv_npar ?a" by simp
  have b: "lv_ptind ?b < lv_npar ?b" by simp
  from ptind_advances_once_per_cycle [OF a, of demo_fftw "[]"]
  have "lv_ptind (lv_process demo_fftw [] ?a) = 0" by simp
  moreover from ptind_advances_once_per_cycle [OF b, of demo_fftw "[]"]
  have "lv_ptind (lv_process demo_fftw [] ?b) = 2" by simp
  ultimately show ?thesis by simp
qed

lemma mod_step_down:
  fixes a :: int and n :: nat
  assumes "0 < n"
  shows "(if nat (a mod int n) = 0 then n else nat (a mod int n)) - 1 = nat ((a - 1) mod int n)"
proof -
  have r: "0 \<le> a mod int n" "a mod int n < int n" using assms by simp_all
  show ?thesis
  proof (cases "a mod int n = 0")
    case True
    have "(a - 1) mod int n = (a mod int n - 1) mod int n" by (simp add: mod_diff_left_eq)
    also have "\<dots> = (- 1) mod int n" using True by simp
    also have "\<dots> = int n - 1" using assms by (simp add: zmod_minus1)
    finally have "(a - 1) mod int n = int n - 1" .
    with True assms show ?thesis by (simp add: nat_diff_distrib)
  next
    case False
    with r have p: "0 < a mod int n" by linarith
    have "(a - 1) mod int n = (a mod int n - 1) mod int n" by (simp add: mod_diff_left_eq)
    also have "\<dots> = a mod int n - 1" using p r by (intro mod_pos_pos_trivial) linarith+
    finally have "(a - 1) mod int n = a mod int n - 1" .
    with False p show ?thesis by (simp add: nat_diff_distrib)
  qed
qed

lemma mac_partitions_fold:
  assumes "0 < npar"
  shows "i = nat ((int ptind - int j) mod int npar) \<Longrightarrow>
    mac_partitions parsize npar ffta fftb j i n freq
      = foldl (mac_step parsize npar ptind ffta fftb) freq [j..<j + n]"
proof (induction n arbitrary: i j freq)
  case 0
  then show ?case by simp
next
  case (Suc n)
  let ?step = "mac_step parsize npar ptind ffta fftb"
  have e: "int ptind - int (Suc j) = (int ptind - int j) - 1" by simp
  have i': "(if i = 0 then npar else i) - 1 = nat ((int ptind - int (Suc j)) mod int npar)"
    unfolding e Suc.prems by (rule mod_step_down [OF assms])
  have f: "(case fftb ! j of None \<Rightarrow> freq
            | Some b \<Rightarrow> mac_spectrum parsize freq (ffta ! i) b) = ?step freq j"
    using Suc.prems
    by (simp add: mac_step_def mac_spectrum_def cmac_def Let_def split: option.splits)
  have "mac_partitions parsize npar ffta fftb j i (Suc n) freq
      = mac_partitions parsize npar ffta fftb (Suc j) ((if i = 0 then npar else i) - 1) n
          (?step freq j)"
    by (simp only: mac_partitions.simps Let_def f)
  also have "\<dots> = foldl ?step (?step freq j) [Suc j..<Suc j + n]"
    by (rule Suc.IH [OF i'])
  also have "\<dots> = foldl ?step freq (j # [Suc j..<Suc j + n])" by simp
  also have "j # [Suc j..<Suc j + n] = [j..<j + Suc n]" by (simp add: upt_conv_Cons)
  finally show ?case .
qed

lemma mac_partitions_order:
  assumes "ptind < npar"
  shows "mac_partitions parsize npar ffta fftb 0 ptind npar freq
      = mac_order_spec parsize npar ptind ffta fftb freq"
proof -
  from assms have n: "0 < npar" by simp
  from assms have i: "ptind = nat ((int ptind - int 0) mod int npar)" by simp
  from mac_partitions_fold [OF n i, of parsize ffta fftb npar freq] show ?thesis
    by (simp add: mac_order_spec_def)
qed

lemma mac_node_spec:
  assumes "ptind < npar"
  shows "mac_node parsize npar ptind inps
      = (\<lambda>freq M. case find (\<lambda>X. inp_inp X = mac_inpn M) inps of
           None \<Rightarrow> freq
         | Some X \<Rightarrow>
             mac_order_spec parsize npar ptind (inp_ffta X)
               (case mac_link M of Some l \<Rightarrow> l | None \<Rightarrow> mac_fftb M) freq)"
  by (intro ext) (simp add: mac_node_def mac_partitions_order [OF assms] split: option.splits)

lemma wrap_index:
  fixes i1 k inpsize :: nat
  assumes "inpsize \<le> i1 + k" and "i1 < inpsize" and "k < inpsize"
  shows "(i1 + k) mod inpsize = i1 + k - inpsize"
proof -
  have "(i1 + k) mod inpsize = (i1 + k - inpsize) mod inpsize"
    using assms(1) by (simp add: le_mod_geq)
  also have "\<dots> = i1 + k - inpsize" using assms by (intro mod_less) linarith
  finally show ?thesis .
qed

text \<open>The samples \<open>process\<close> copies are the newest block of the ring.\<close>

lemma time_block_newest:
  fixes inpd :: "('a::zero) list"
  assumes i: "i1 < inpsize" and p: "parsize \<le> inpsize"
  shows "time_block inpd i1
           (parsize - (if i1 + parsize \<ge> inpsize then i1 + parsize - inpsize else 0))
           (if i1 + parsize \<ge> inpsize then i1 + parsize - inpsize else 0) parsize
      = newest_block inpd i1 inpsize parsize"
proof (cases "i1 + parsize \<ge> inpsize")
  case False
  then have lt: "\<And>k. k < parsize \<Longrightarrow> (i1 + k) mod inpsize = i1 + k" by simp
  have "time_block inpd i1 parsize 0 parsize
      = map (\<lambda>k. inpd ! (i1 + k)) [0..<parsize] @ replicate parsize 0"
    by (simp add: time_block_def)
  also have "\<dots> = newest_block inpd i1 inpsize parsize"
  proof (rule nth_equalityI)
    show "length (map (\<lambda>k. inpd ! (i1 + k)) [0..<parsize] @ replicate parsize (0::'a))
        = length (newest_block inpd i1 inpsize parsize)"
      by (simp add: newest_block_def)
  next
    fix k assume "k < length (map (\<lambda>k. inpd ! (i1 + k)) [0..<parsize] @ replicate parsize (0::'a))"
    then have k: "k < 2 * parsize" by simp
    then show "(map (\<lambda>k. inpd ! (i1 + k)) [0..<parsize] @ replicate parsize (0::'a)) ! k
        = newest_block inpd i1 inpsize parsize ! k"
      by (simp add: newest_block_def nth_append lt)
  qed
  finally show ?thesis using False by simp
next
  case True
  define n2 where "n2 = i1 + parsize - inpsize"
  define n1 where "n1 = parsize - n2"
  have n2: "n2 < parsize" using i True by (simp add: n2_def)
  have n1: "n1 = inpsize - i1" using i p True by (simp add: n1_def n2_def)
  have s: "n1 + n2 = parsize" using n2 by (simp add: n1_def)
  have "time_block inpd i1 n1 n2 parsize = newest_block inpd i1 inpsize parsize"
  proof (rule nth_equalityI)
    show "length (time_block inpd i1 n1 n2 parsize) = length (newest_block inpd i1 inpsize parsize)"
      using s by (simp add: time_block_def newest_block_def)
  next
    fix k assume "k < length (time_block inpd i1 n1 n2 parsize)"
    then have k: "k < 2 * parsize" using s by (simp add: time_block_def)
    consider "k < n1" | "n1 \<le> k" "k < parsize" | "parsize \<le> k" by linarith
    then show "time_block inpd i1 n1 n2 parsize ! k = newest_block inpd i1 inpsize parsize ! k"
    proof cases
      case 1
      then have "i1 + k < inpsize" using n1 by simp
      then have "(i1 + k) mod inpsize = i1 + k" by simp
      with 1 k s show ?thesis by (simp add: time_block_def newest_block_def nth_append)
    next
      case 2
      then have ge: "inpsize \<le> i1 + k" using n1 i by simp
      have "k < inpsize" using 2 p by simp
      from wrap_index [OF ge i this] have m: "(i1 + k) mod inpsize = k - n1"
        using n1 i by simp
      have "k - n1 < n2" using 2 s by simp
      with 2 k s m show ?thesis by (simp add: time_block_def newest_block_def nth_append)
    next
      case 3
      have "\<not> k < n1" "\<not> k - n1 < n2" "k - n1 - n2 < parsize" using 3 k s by linarith+
      with 3 k s show ?thesis by (simp add: time_block_def newest_block_def nth_append)
    qed
  qed
  then show ?thesis using True by (simp add: n1_def n2_def)
qed

text \<open>
  C8.  A processing step of a level whose ring index is in range (and whose input offset
  is inside the input ring, which is not shorter than a partition) does this.  The
  forward FFT of the newest input block of every input is written to slot \<open>_ptind\<close> of the
  input's ring; the other slots stay as the earlier cycles left them.  Then, for every
  output node, \<open>freq_data\<close> is cleared and every MAC node of the output accumulates into
  it, for \<open>j = 0 .. _npar - 1\<close> in this order, the complex product of the input spectrum in
  ring slot \<open>(_ptind - j) mod _npar\<close> with impulse partition \<open>j\<close> (\<open>freq_data_spec\<close>, read
  from the rings after the forward FFT): partition 0 meets slot \<open>_ptind\<close>, the newest
  block, partition 1 the block before it, and so on.  The inverse FFT of \<open>freq_data\<close> is
  added, first half, to the output ring buffer after the current one and copied, second
  half, to the one after that.
\<close>

theorem mac_pairs_partition_with_ring_slot:
  fixes lv :: "('a::{zero,plus,minus,times}) Convlevel"
  assumes "lv_ptind lv < lv_npar lv"
    and "lv_inpoffs lv < lv_inpsize lv"
    and "lv_parsize lv \<le> lv_inpsize lv"
  shows "lv_inp_list (lv_process F inpbuff lv)
      = map (\<lambda>X. X\<lparr>inp_ffta := (inp_ffta X)
                     [lv_ptind lv :=
                        r2c F (newest_block (inpbuff ! inp_inp X) (lv_inpoffs lv)
                                 (lv_inpsize lv) (lv_parsize lv))]\<rparr>)
          (lv_inp_list lv)
    \<and> lv_out_list (lv_process F inpbuff lv)
      = map (\<lambda>Y. let t = c2r F (freq_data_spec (lv_parsize lv) (lv_npar lv) (lv_ptind lv)
                                  (lv_inp_list (lv_process F inpbuff lv)) Y);
                     o1 = (lv_opind lv + 1) mod 3;
                     o2 = (lv_opind lv + 2) mod 3
                 in Y\<lparr>out_buff := (out_buff Y)
                        [o1 := map (\<lambda>k. out_buff Y ! o1 ! k + t ! k) [0..<lv_parsize lv],
                         o2 := map (\<lambda>k. t ! (lv_parsize lv + k)) [0..<lv_parsize lv]]\<rparr>)
          (lv_out_list lv)
    \<and> nat ((int (lv_ptind lv) - int 0) mod int (lv_npar lv)) = lv_ptind lv"
proof -
  let ?ps = "lv_parsize lv"
  let ?n2 = "if lv_inpoffs lv + ?ps \<ge> lv_inpsize lv then lv_inpoffs lv + ?ps - lv_inpsize lv
             else 0"
  have inps: "lv_inp_list (lv_process F inpbuff lv)
      = map (fft_input F inpbuff (lv_inpoffs lv) (?ps - ?n2) ?n2 ?ps (lv_ptind lv))
          (lv_inp_list lv)"
    by (simp add: lv_process_def Let_def)
  have a: "lv_inp_list (lv_process F inpbuff lv)
      = map (\<lambda>X. X\<lparr>inp_ffta := (inp_ffta X)
                     [lv_ptind lv :=
                        r2c F (newest_block (inpbuff ! inp_inp X) (lv_inpoffs lv)
                                 (lv_inpsize lv) (lv_parsize lv))]\<rparr>)
          (lv_inp_list lv)"
    unfolding inps fft_input_def time_block_newest [OF assms(2) assms(3)] by (rule refl)
  have outs: "lv_out_list (lv_process F inpbuff lv)
      = map (convolve_output F ?ps (lv_npar lv) (lv_ptind lv)
               ((lv_opind lv + 1) mod 3) ((lv_opind lv + 2) mod 3)
               (lv_inp_list (lv_process F inpbuff lv)))
          (lv_out_list lv)"
    by (simp add: lv_process_def Let_def)
  have b: "lv_out_list (lv_process F inpbuff lv)
      = map (\<lambda>Y. let t = c2r F (freq_data_spec (lv_parsize lv) (lv_npar lv) (lv_ptind lv)
                                  (lv_inp_list (lv_process F inpbuff lv)) Y);
                     o1 = (lv_opind lv + 1) mod 3;
                     o2 = (lv_opind lv + 2) mod 3
                 in Y\<lparr>out_buff := (out_buff Y)
                        [o1 := map (\<lambda>k. out_buff Y ! o1 ! k + t ! k) [0..<lv_parsize lv],
                         o2 := map (\<lambda>k. t ! (lv_parsize lv + k)) [0..<lv_parsize lv]]\<rparr>)
          (lv_out_list lv)"
    unfolding outs convolve_output_def freq_data_spec_def mac_node_spec [OF assms(1)]
    by (simp add: Let_def)
  have c: "nat ((int (lv_ptind lv) - int 0) mod int (lv_npar lv)) = lv_ptind lv"
    using assms(1) by simp
  from a b c show ?thesis by (intro conjI)
qed

lemma upt_0_2: "[0..<2] = [0, Suc 0]"
  by (simp add: numeral_2_eq_2)

lemma demo_newest_block:
  "newest_block [4, 6] (lv_inpoffs demo_mac_level) (lv_inpsize demo_mac_level)
     (lv_parsize demo_mac_level) = [6, 0 :: int]"
  by (simp add: newest_block_def demo_mac_level_def upt_0_2)

lemma demo_freq_data:
  "freq_data_spec 1 3 1
     [\<lparr>inp_inp = 0, inp_ffta = [[(8, 8), (8, 8)], [(6, 0), (0, 0)], [(1, 2), (3, 4)]]\<rparr>]
     (hd (lv_out_list demo_mac_level))
   = [(154, 209), (- 1, 7 :: int)]"
  by (simp add: freq_data_spec_def mac_order_spec_def mac_step_def demo_mac_level_def
      Let_def numeral_3_eq_3 upt_0_2)

text \<open>The demo level with the input ring \<open>[4, 6]\<close>: the newest block is \<open>[6, 0]\<close>, its
  spectrum goes to slot 1, partition 0 meets slot 1, partition 1 has no data and
  partition 2 meets slot \<open>(1 - 2) mod 3 = 2\<close>; \<open>freq_data\<close> is
  \<open>(6 + 0i)(10 + i) + (1 + 2i)(100 + 3i) = 154 + 209i\<close> in bin 0 and
  \<open>(3 + 4i)(1 + i) = -1 + 7i\<close> in bin 1.\<close>

theorem mac_pairs_partition_with_ring_slot_witness:
  "lv_ptind demo_mac_level < lv_npar demo_mac_level
   \<and> lv_inpoffs demo_mac_level < lv_inpsize demo_mac_level
   \<and> lv_parsize demo_mac_level \<le> lv_inpsize demo_mac_level
   \<and> newest_block [4, 6] (lv_inpoffs demo_mac_level) (lv_inpsize demo_mac_level)
        (lv_parsize demo_mac_level) = [6, 0 :: int]
   \<and> freq_data_spec 1 3 1
        [\<lparr>inp_inp = 0, inp_ffta = [[(8, 8), (8, 8)], [(6, 0), (0, 0)], [(1, 2), (3, 4)]]\<rparr>]
        (hd (lv_out_list demo_mac_level))
       = [(154, 209), (- 1, 7 :: int)]
   \<and> map inp_ffta (lv_inp_list (lv_process demo_fftw [[4, 6]] demo_mac_level))
       = [[[(8, 8), (8, 8)], [(6, 0), (0, 0)], [(1, 2), (3, 4)]]]
   \<and> map out_buff (lv_out_list (lv_process demo_fftw [[4, 6]] demo_mac_level))
       = [[[7], [159], [- 1]]]"
proof -
  have h1: "lv_ptind demo_mac_level < lv_npar demo_mac_level"
    by (simp add: demo_mac_level_def)
  have h2: "lv_inpoffs demo_mac_level < lv_inpsize demo_mac_level"
    by (simp add: demo_mac_level_def)
  have h3: "lv_parsize demo_mac_level \<le> lv_inpsize demo_mac_level"
    by (simp add: demo_mac_level_def)
  note t = mac_pairs_partition_with_ring_slot [OF h1 h2 h3, of demo_fftw "[[4, 6]]"]
  have il: "lv_inp_list demo_mac_level
      = [\<lparr>inp_inp = 0, inp_ffta = [[(8, 8), (8, 8)], [(0, 0), (0, 0)], [(1, 2), (3, 4)]]\<rparr>]"
    by (simp add: demo_mac_level_def)
  have pt: "lv_ptind demo_mac_level = 1" by (simp add: demo_mac_level_def)
  have inps: "lv_inp_list (lv_process demo_fftw [[4, 6]] demo_mac_level)
      = [\<lparr>inp_inp = 0, inp_ffta = [[(8, 8), (8, 8)], [(6, 0), (0, 0)], [(1, 2), (3, 4)]]\<rparr>]"
    unfolding t [THEN conjunct1] il
    by (simp add: demo_newest_block pt demo_fftw_def)
  have fd: "freq_data_spec (lv_parsize demo_mac_level) (lv_npar demo_mac_level)
        (lv_ptind demo_mac_level)
        [\<lparr>inp_inp = 0, inp_ffta = [[(8, 8), (8, 8)], [(6, 0), (0, 0)], [(1, 2), (3, 4)]]\<rparr>]
        (hd (lv_out_list demo_mac_level))
       = [(154, 209), (- 1, 7 :: int)]"
    using demo_freq_data by (simp add: demo_mac_level_def)
  have ol: "lv_out_list demo_mac_level = [hd (lv_out_list demo_mac_level)]"
    by (simp add: demo_mac_level_def)
  have ob: "out_buff (hd (lv_out_list demo_mac_level)) = [[7], [5], [9]]"
    by (simp add: demo_mac_level_def)
  have op: "lv_opind demo_mac_level = 0" "lv_parsize demo_mac_level = 1"
    by (simp_all add: demo_mac_level_def Convlevel_new_def)
  have outs: "map out_buff (lv_out_list (lv_process demo_fftw [[4, 6]] demo_mac_level))
       = [[[7], [159], [- 1]]]"
    unfolding t [THEN conjunct2, THEN conjunct1] inps
    apply (subst ol)
    apply (simp only: list.map Let_def fd)
    apply (simp add: ob op demo_fftw_def)
    done
  from inps have ring: "map inp_ffta (lv_inp_list (lv_process demo_fftw [[4, 6]] demo_mac_level))
       = [[[(8, 8), (8, 8)], [(6, 0), (0, 0)], [(1, 2), (3, 4)]]]"
    by simp
  show ?thesis by (intro conjI h1 h2 h3 demo_newest_block demo_freq_data ring outs)
qed
section \<open>Properties of Convproc: late cycles and the tail readout\<close>




lemma lv_process_wait [simp]: "lv_wait (lv_process F inpbuff lv) = lv_wait lv"
  by (simp add: lv_process_def Let_def)

lemma lv_process_done [simp]: "lv_done (lv_process F inpbuff lv) = lv_done lv"
  by (simp add: lv_process_def Let_def)






lemma demo_late_process:
  "process zita_limits demo_fftw demo_late_proc
   = Some (2 OR FL_LOAD zita_limits,
       demo_late_proc\<lparr>cp_outbuff := [[0]], cp_latecnt := 5, cp_state := ST_WAIT,
         cp_inpoffs := 1,
         cp_convlev := [demo_late_level\<lparr>lv_outoffs := 1, lv_stat := LV_IDLE\<rparr>]\<rparr>)"
  by (simp add: process_def demo_late_proc_def demo_late_level_def Convproc_new_def
      Convlevel_new_def zero_fill_def lv_readout_def mix_out_def Let_def stop_process_def
      lv_stop_def worker_wake_def zita_limits_def)


lemma zero_fill_length: "n \<le> length b \<Longrightarrow> length (zero_fill n b) = length b"
  by (simp add: zero_fill_def)

lemma zero_fill_nth: "i < n \<Longrightarrow> zero_fill n b ! i = 0"
  by (simp add: zero_fill_def nth_append)

lemma zero_fill_rest: "n \<le> i \<Longrightarrow> i < length b \<Longrightarrow> zero_fill n b ! i = b ! i"
  by (simp add: zero_fill_def nth_append)

lemma mix_node_length: "length (mix_node n opind outoffs ob Y) = length ob"
  by (simp add: mix_node_def)

lemma mix_node_sizes:
  assumes "\<forall>l \<in> set (map length ob). n \<le> l"
  shows "map length (mix_node n opind outoffs ob Y) = map length ob"
proof (cases "out_out Y < length ob")
  case True
  then have "n \<le> length (ob ! out_out Y)" using assms by simp
  then have "length (map (\<lambda>i. ob ! out_out Y ! i + out_buff Y ! opind ! (outoffs + i)) [0..<n]
      @ drop n (ob ! out_out Y)) = map length ob ! out_out Y"
    using True by simp
  then show ?thesis by (simp add: mix_node_def map_update)
next
  case False
  then have "length ob \<le> out_out Y" by simp
  then show ?thesis by (simp add: mix_node_def list_update_beyond)
qed

lemma mix_node_nth:
  "out < length ob \<Longrightarrow> i < n \<Longrightarrow>
   mix_node n opind outoffs ob Y ! out ! i
     = (if out_out Y = out then ob ! out ! i + out_buff Y ! opind ! (outoffs + i)
        else ob ! out ! i)"
  by (simp add: mix_node_def nth_append nth_list_update)

lemma mix_node_rest:
  assumes "out < length ob" and "n \<le> i" and "i < length (ob ! out)"
  shows "mix_node n opind outoffs ob Y ! out ! i = ob ! out ! i"
proof (cases "out_out Y = out")
  case True
  have "(map (\<lambda>i. ob ! out ! i + out_buff Y ! opind ! (outoffs + i)) [0..<n]
      @ drop n (ob ! out)) ! i = drop n (ob ! out) ! (i - n)"
    using assms(2) by (simp add: nth_append)
  also have "\<dots> = ob ! out ! (n + (i - n))" using assms by (intro nth_drop) simp
  also have "\<dots> = ob ! out ! i" using assms(2) by simp
  finally show ?thesis using True assms(1) by (simp add: mix_node_def)
next
  case False
  then show ?thesis by (simp add: mix_node_def)
qed

lemma mix_out_length: "length (mix_out n opind outoffs Ys ob) = length ob"
proof (induction Ys arbitrary: ob)
  case Nil
  then show ?case by (simp add: mix_out_def)
next
  case (Cons Y Ys)
  have "mix_out n opind outoffs (Y # Ys) ob
      = mix_out n opind outoffs Ys (mix_node n opind outoffs ob Y)"
    by (simp add: mix_out_def)
  with Cons.IH [of "mix_node n opind outoffs ob Y"] show ?case
    by (simp add: mix_node_length)
qed

lemma mix_out_Cons:
  "mix_out n opind outoffs (Y # Ys) ob = mix_out n opind outoffs Ys (mix_node n opind outoffs ob Y)"
  by (simp add: mix_out_def)

lemma mix_out_sizes:
  "\<forall>l \<in> set (map length ob). n \<le> l \<Longrightarrow>
   map length (mix_out n opind outoffs Ys ob) = map length ob"
proof (induction Ys arbitrary: ob)
  case Nil
  then show ?case by (simp add: mix_out_def)
next
  case (Cons Y Ys)
  from mix_node_sizes [OF Cons.prems]
  have m: "map length (mix_node n opind outoffs ob Y) = map length ob" .
  with Cons.prems have "\<forall>l \<in> set (map length (mix_node n opind outoffs ob Y)). n \<le> l"
    by (simp only:)
  from Cons.IH [OF this] m show ?case by (simp only: mix_out_Cons)
qed

lemma mix_out_nth:
  "out < length ob \<Longrightarrow> i < n \<Longrightarrow>
   mix_out n opind outoffs Ys ob ! out ! i
     = foldl (+) (ob ! out ! i)
         (map (\<lambda>Y. out_buff Y ! opind ! (outoffs + i)) (filter (\<lambda>Y. out_out Y = out) Ys))"
proof (induction Ys arbitrary: ob)
  case Nil
  then show ?case by (simp add: mix_out_def)
next
  case (Cons Y Ys)
  have "out < length (mix_node n opind outoffs ob Y)" using Cons.prems(1)
    by (simp add: mix_node_length)
  from Cons.IH [OF this Cons.prems(2)] Cons.prems
  show ?case by (simp add: mix_out_Cons mix_node_nth)
qed

lemma mix_out_rest:
  "\<forall>l \<in> set (map length ob). n \<le> l \<Longrightarrow> out < length ob \<Longrightarrow> n \<le> i \<Longrightarrow>
   i < length (ob ! out) \<Longrightarrow>
   mix_out n opind outoffs Ys ob ! out ! i = ob ! out ! i"
proof (induction Ys arbitrary: ob)
  case Nil
  then show ?case by (simp add: mix_out_def)
next
  case (Cons Y Ys)
  let ?ob = "mix_node n opind outoffs ob Y"
  from mix_node_sizes [OF Cons.prems(1)] have m: "map length ?ob = map length ob" .
  with Cons.prems(1) have p: "\<forall>l \<in> set (map length ?ob). n \<le> l" by (simp only:)
  have l: "out < length ?ob" using Cons.prems(2) by (simp add: mix_node_length)
  have "length (?ob ! out) = map length ?ob ! out" using l by simp
  also have "\<dots> = length (ob ! out)" using Cons.prems(2) by (simp only: m) simp
  finally have i: "i < length (?ob ! out)" using Cons.prems(4) by simp
  from Cons.IH [OF p l Cons.prems(3) i] Cons.prems
  show ?case by (simp add: mix_out_Cons mix_node_rest)
qed

lemma tails_mixed_Cons:
  "tails_mixed n (lv # lvs) ob
     = tails_mixed n lvs (mix_out n (tail_opind lv) (tail_outoffs lv) (lv_out_list lv) ob)"
  by (simp add: tails_mixed_def)

lemma lv_readtail_returns:
  assumes "lv_wait lv \<le> lv_done lv"
  shows "lv_readtail n ob lv
      = Some (after_readtail lv,
              mix_out n (tail_opind lv) (tail_outoffs lv) (lv_out_list lv) ob)"
  using assms
  by (simp add: lv_readtail_def Let_def await_done_def tail_opind_def tail_outoffs_def
      after_readtail_def)

lemma readtails_returns:
  "\<forall>lv \<in> set lvs. lv_wait lv \<le> lv_done lv \<Longrightarrow>
   \<forall>l \<in> set (map length ob). n \<le> l \<Longrightarrow>
   \<forall>lv \<in> set lvs. tail_in_bounds n (map length ob) lv \<Longrightarrow>
   readtails n f ob lvs = Some (Inr (f, map after_readtail lvs, tails_mixed n lvs ob))"
proof (induction lvs arbitrary: ob f)
  case Nil
  then show ?case by (simp add: tails_mixed_def)
next
  case (Cons lv lvs)
  let ?ob = "mix_out n (tail_opind lv) (tail_outoffs lv) (lv_out_list lv) ob"
  from Cons.prems(1) have w: "lv_wait lv \<le> lv_done lv" by simp
  from Cons.prems(3) have b: "tail_in_bounds n (map length ob) lv" by simp
  from mix_out_sizes [OF Cons.prems(2)] have m: "map length ?ob = map length ob" .
  from Cons.prems(1) have 1: "\<forall>lv \<in> set lvs. lv_wait lv \<le> lv_done lv" by simp
  from Cons.prems(2) m have 2: "\<forall>l \<in> set (map length ?ob). n \<le> l" by (simp only:)
  from Cons.prems(3) m have 3: "\<forall>lv \<in> set lvs. tail_in_bounds n (map length ?ob) lv"
    by (simp only:) simp
  from Cons.IH [OF 1 2 3, of f]
  have "readtails n f ?ob lvs = Some (Inr (f, map after_readtail lvs, tails_mixed n lvs ?ob))" .
  then show ?case
    using b by (simp add: lv_readtail_returns [OF w] tails_mixed_Cons)
qed

lemma tails_mixed_sizes:
  "\<forall>l \<in> set (map length ob). n \<le> l \<Longrightarrow> map length (tails_mixed n lvs ob) = map length ob"
proof (induction lvs arbitrary: ob)
  case Nil
  then show ?case by (simp add: tails_mixed_def)
next
  case (Cons lv lvs)
  let ?ob = "mix_out n (tail_opind lv) (tail_outoffs lv) (lv_out_list lv) ob"
  from mix_out_sizes [OF Cons.prems] have m: "map length ?ob = map length ob" .
  with Cons.prems have "\<forall>l \<in> set (map length ?ob). n \<le> l" by (simp only:)
  from Cons.IH [OF this] m show ?case by (simp only: tails_mixed_Cons)
qed

lemma tail_terms_Cons:
  "tail_terms out i (lv # lvs)
     = map (\<lambda>Y. out_buff Y ! tail_opind lv ! (tail_outoffs lv + i))
         (filter (\<lambda>Y. out_out Y = out) (lv_out_list lv))
       @ tail_terms out i lvs"
  by (simp add: tail_terms_def)

lemma tails_mixed_nth:
  "out < length ob \<Longrightarrow> i < n \<Longrightarrow>
   tails_mixed n lvs ob ! out ! i = foldl (+) (ob ! out ! i) (tail_terms out i lvs)"
proof (induction lvs arbitrary: ob)
  case Nil
  then show ?case by (simp add: tails_mixed_def tail_terms_def)
next
  case (Cons lv lvs)
  let ?ob = "mix_out n (tail_opind lv) (tail_outoffs lv) (lv_out_list lv) ob"
  have "length ?ob = length ob" by (rule mix_out_length)
  with Cons.prems have l: "out < length ?ob" by simp
  from Cons.IH [OF l Cons.prems(2)]
  show ?case
    by (simp add: tails_mixed_Cons tail_terms_Cons mix_out_nth [OF Cons.prems])
qed

lemma tails_mixed_rest:
  "\<forall>l \<in> set (map length ob). n \<le> l \<Longrightarrow> out < length ob \<Longrightarrow> n \<le> i \<Longrightarrow>
   i < length (ob ! out) \<Longrightarrow>
   tails_mixed n lvs ob ! out ! i = ob ! out ! i"
proof (induction lvs arbitrary: ob)
  case Nil
  then show ?case by (simp add: tails_mixed_def)
next
  case (Cons lv lvs)
  let ?ob = "mix_out n (tail_opind lv) (tail_outoffs lv) (lv_out_list lv) ob"
  from mix_out_sizes [OF Cons.prems(1)] have m: "map length ?ob = map length ob" .
  with Cons.prems(1) have p: "\<forall>l \<in> set (map length ?ob). n \<le> l" by (simp only:)
  from m have "length ?ob = length ob" by (metis length_map)
  with Cons.prems(2) have l: "out < length ?ob" by simp
  have "length (?ob ! out) = map length ?ob ! out" using l by simp
  also have "\<dots> = length (ob ! out)" using Cons.prems(2) by (simp only: m) simp
  finally have i: "i < length (?ob ! out)" using Cons.prems(4) by simp
  from Cons.IH [OF p l Cons.prems(3) i] mix_out_rest [OF Cons.prems]
  show ?case by (simp add: tails_mixed_Cons)
qed

lemma demo_tail_run:
  "tailonly 1 demo_tail_proc = Some (Inr (0, demo_tail_proc\<lparr>cp_outbuff := [[5]]\<rparr>))"
  by (simp add: tailonly_def demo_tail_proc_def demo_tail_level_def Convproc_new_def
      Convlevel_new_def zero_fill_def lv_readtail_def mix_out_def mix_node_def Let_def
      await_done_def next_opind_def tail_in_bounds_def tail_opind_def tail_outoffs_def)

text \<open>
  C4, as stated, fails: \<open>tailonly\<close> does not skip the level of the smallest partition
  size.  A convolver in state \<open>PROC\<close> whose only level is that level (partition size 1, the
  quantum and \<open>minpart\<close>), with 5 in the ring buffer after the current one: \<open>tailonly (1)\<close>
  leaves 5 in the output accumulator, not the 0 that mixing the larger levels alone (there
  are none) would leave.
\<close>

theorem tailonly_reads_smallest_level:
  "cp_state demo_tail_proc = ST_PROC
   \<and> cp_outoffs demo_tail_proc + cp_quantum demo_tail_proc = cp_minpart demo_tail_proc
   \<and> map lv_parsize (cp_convlev demo_tail_proc) = [cp_minpart demo_tail_proc]
   \<and> tailonly 1 demo_tail_proc = Some (Inr (0, demo_tail_proc\<lparr>cp_outbuff := [[5]]\<rparr>))
   \<and> map (zero_fill 1) (cp_outbuff demo_tail_proc) = [[0]]"
proof -
  have "cp_state demo_tail_proc = ST_PROC" by (simp add: demo_tail_proc_def)
  moreover have "cp_outoffs demo_tail_proc + cp_quantum demo_tail_proc = cp_minpart demo_tail_proc"
    by (simp add: demo_tail_proc_def Convproc_new_def)
  moreover have "map lv_parsize (cp_convlev demo_tail_proc) = [cp_minpart demo_tail_proc]"
    by (simp add: demo_tail_proc_def demo_tail_level_def)
  moreover have "map (zero_fill 1) (cp_outbuff demo_tail_proc) = [[0]]"
    by (simp add: demo_tail_proc_def zero_fill_def)
  ultimately show ?thesis using demo_tail_run by blast
qed

lemma tail_in_bounds_iff:
  assumes "\<forall>b \<in> set ob. n \<le> length b"
  shows "tail_in_bounds n (map length ob) lv
     = (\<forall>Y \<in> set (lv_out_list lv).
          out_out Y < length ob \<and> tail_opind lv < length (out_buff Y)
          \<and> tail_outoffs lv + n \<le> length (out_buff Y ! tail_opind lv))"
  using assms by (auto simp: tail_in_bounds_def list_all_iff)

lemma readtails_out_of_bounds:
  "\<forall>lv \<in> set lvs. lv_wait lv \<le> lv_done lv \<Longrightarrow>
   \<forall>l \<in> set (map length ob). n \<le> l \<Longrightarrow>
   \<exists>lv \<in> set lvs. \<not> tail_in_bounds n (map length ob) lv \<Longrightarrow>
   readtails n f ob lvs = Some (Inl OutOfBounds)"
proof (induction lvs arbitrary: ob f)
  case Nil
  then show ?case by simp
next
  case (Cons lv lvs)
  let ?ob = "mix_out n (tail_opind lv) (tail_outoffs lv) (lv_out_list lv) ob"
  from Cons.prems(1) have w: "lv_wait lv \<le> lv_done lv" by simp
  show ?case
  proof (cases "tail_in_bounds n (map length ob) lv")
    case False
    then show ?thesis by (simp add: lv_readtail_returns [OF w])
  next
    case True
    from mix_out_sizes [OF Cons.prems(2)] have m: "map length ?ob = map length ob" .
    from Cons.prems(1) have 1: "\<forall>lv \<in> set lvs. lv_wait lv \<le> lv_done lv" by simp
    from Cons.prems(2) m have 2: "\<forall>l \<in> set (map length ?ob). n \<le> l" by (simp only:)
    from Cons.prems(3) True have "\<exists>lv \<in> set lvs. \<not> tail_in_bounds n (map length ob) lv"
      by auto
    with m have 3: "\<exists>lv \<in> set lvs. \<not> tail_in_bounds n (map length ?ob) lv" by (simp only:)
    from Cons.IH [OF 1 2 3, of f]
    have "readtails n f ?ob lvs = Some (Inl OutOfBounds)" .
    then show ?thesis using True by (simp add: lv_readtail_returns [OF w])
  qed
qed

text \<open>
  C4, amended.  Take a \<open>tailonly (n_samples)\<close> call in state \<open>PROC\<close> whose offset plus
  quantum reaches \<open>minpart\<close>, with \<open>_done\<close> posted for every cycle a level waits for.

  When \<open>n_samples\<close> is within the buffers the call reaches (every output accumulator has
  \<open>n_samples\<close> floats, and every output ring of every level has \<open>n_samples\<close> floats from the
  offset that is read), the call returns 0.  It leaves the sizes of the accumulators as
  they were.  Sample \<open>i < n_samples\<close> of the accumulator of every output is the sum, from
  0, of the samples that every level, from the first (the smallest partition size) to
  the last, has for this output in its ring: one for every output node of the output,
  from the ring buffer and offset of the level's next readout.  The samples from
  \<open>n_samples\<close> on are as they were.  No level runs or triggers a processing step: a level
  at the end of its cycle has waited for the cycles it had triggered, and nothing else
  changes in a level; the convolver is as it was but for the levels and the accumulators.

  Otherwise the call reads or writes outside a buffer, since nothing in it compares
  \<open>n_samples\<close> with a size.
\<close>

theorem tailonly_mixes_every_level:
  fixes s :: "('a::{zero,plus}) Convproc"
  assumes "cp_state s = ST_PROC"
    and "cp_outoffs s + cp_quantum s = cp_minpart s"
    and "\<forall>lv \<in> set (cp_convlev s). lv_wait lv \<le> lv_done lv"
  shows "((\<forall>b \<in> set (cp_outbuff s). n \<le> length b)
       \<and> (\<forall>lv \<in> set (cp_convlev s). \<forall>Y \<in> set (lv_out_list lv).
             out_out Y < length (cp_outbuff s) \<and> tail_opind lv < length (out_buff Y)
             \<and> tail_outoffs lv + n \<le> length (out_buff Y ! tail_opind lv))
      \<longrightarrow>
       (\<exists>s'. tailonly n s = Some (Inr (0, s'))
        \<and> map length (cp_outbuff s') = map length (cp_outbuff s)
        \<and> (\<forall>out i. out < length (cp_outbuff s) \<and> i < n \<longrightarrow>
              cp_outbuff s' ! out ! i = foldl (+) 0 (tail_terms out i (cp_convlev s)))
        \<and> (\<forall>out i. out < length (cp_outbuff s) \<and> n \<le> i \<and> i < length (cp_outbuff s ! out) \<longrightarrow>
              cp_outbuff s' ! out ! i = cp_outbuff s ! out ! i)
        \<and> cp_convlev s'
            = map (\<lambda>lv. if lv_outoffs lv + lv_outsize lv = lv_parsize lv
                        then lv\<lparr>lv_done := lv_done lv - lv_wait lv, lv_wait := 0\<rparr>
                        else lv)
                (cp_convlev s)
        \<and> s' = s\<lparr>cp_convlev := cp_convlev s', cp_outbuff := cp_outbuff s'\<rparr>))
    \<and> (\<not> ((\<forall>b \<in> set (cp_outbuff s). n \<le> length b)
          \<and> (\<forall>lv \<in> set (cp_convlev s). \<forall>Y \<in> set (lv_out_list lv).
                out_out Y < length (cp_outbuff s) \<and> tail_opind lv < length (out_buff Y)
                \<and> tail_outoffs lv + n \<le> length (out_buff Y ! tail_opind lv)))
      \<longrightarrow> tailonly n s = Some (Inl OutOfBounds))"
proof (intro conjI impI)
  assume h: "(\<forall>b \<in> set (cp_outbuff s). n \<le> length b)
       \<and> (\<forall>lv \<in> set (cp_convlev s). \<forall>Y \<in> set (lv_out_list lv).
             out_out Y < length (cp_outbuff s) \<and> tail_opind lv < length (out_buff Y)
             \<and> tail_outoffs lv + n \<le> length (out_buff Y ! tail_opind lv))"
  then have a4: "\<forall>b \<in> set (cp_outbuff s). n \<le> length b" by blast
  from h have a5: "\<forall>lv \<in> set (cp_convlev s). tail_in_bounds n (map length (cp_outbuff s)) lv"
    by (simp only: tail_in_bounds_iff [OF a4]) blast
  let ?z = "map (zero_fill n) (cp_outbuff s)"
  let ?ob = "tails_mixed n (cp_convlev s) ?z"
  let ?lvs = "map after_readtail (cp_convlev s)"
  let ?s' = "s\<lparr>cp_convlev := ?lvs, cp_outbuff := ?ob\<rparr>"
  have la: "list_all (\<lambda>b. n \<le> length b) (cp_outbuff s)"
    using a4 by (simp add: list_all_iff)
  have zs: "map length ?z = map length (cp_outbuff s)"
    using a4 by (simp add: zero_fill_length)
  have pz: "\<forall>l \<in> set (map length ?z). n \<le> l" using a4 by (simp only: zs) simp
  have bz: "\<forall>lv \<in> set (cp_convlev s). tail_in_bounds n (map length ?z) lv"
    using a5 by (simp only: zs)
  from readtails_returns [OF assms(3) pz bz, of 0]
  have rt: "readtails n 0 ?z (cp_convlev s) = Some (Inr (0, ?lvs, ?ob))" .
  have run: "tailonly n s = Some (Inr (0, ?s'))"
    using assms(1,2) la by (simp add: tailonly_def Let_def rt)
  have szs: "map length (cp_outbuff ?s') = map length (cp_outbuff s)"
    using tails_mixed_sizes [OF pz, of "cp_convlev s"] zs by simp
  have first: "\<forall>out i. out < length (cp_outbuff s) \<and> i < n \<longrightarrow>
          cp_outbuff ?s' ! out ! i = foldl (+) 0 (tail_terms out i (cp_convlev s))"
  proof (intro allI impI)
    fix out i assume a: "out < length (cp_outbuff s) \<and> i < n"
    then have l: "out < length ?z" by simp
    from a have z: "?z ! out ! i = 0" by (simp add: zero_fill_nth)
    from tails_mixed_nth [OF l, of i n "cp_convlev s"] a z
    show "cp_outbuff ?s' ! out ! i = foldl (+) 0 (tail_terms out i (cp_convlev s))" by simp
  qed
  have rest: "\<forall>out i. out < length (cp_outbuff s) \<and> n \<le> i \<and> i < length (cp_outbuff s ! out) \<longrightarrow>
          cp_outbuff ?s' ! out ! i = cp_outbuff s ! out ! i"
  proof (intro allI impI)
    fix out i
    assume a: "out < length (cp_outbuff s) \<and> n \<le> i \<and> i < length (cp_outbuff s ! out)"
    then have l: "out < length ?z" by simp
    from a have nl: "n \<le> length (cp_outbuff s ! out)" by simp
    from a nl have il: "i < length (?z ! out)" by (simp add: zero_fill_length)
    from a have z: "?z ! out ! i = cp_outbuff s ! out ! i" by (simp add: zero_fill_rest)
    from a have ni: "n \<le> i" by simp
    from tails_mixed_rest [OF pz l ni il, of "cp_convlev s"] z
    show "cp_outbuff ?s' ! out ! i = cp_outbuff s ! out ! i" by simp
  qed
  have lv: "cp_convlev ?s'
        = map (\<lambda>lv. if lv_outoffs lv + lv_outsize lv = lv_parsize lv
                    then lv\<lparr>lv_done := lv_done lv - lv_wait lv, lv_wait := 0\<rparr>
                    else lv)
            (cp_convlev s)"
    by (simp add: after_readtail_def)
  have same: "?s' = s\<lparr>cp_convlev := cp_convlev ?s', cp_outbuff := cp_outbuff ?s'\<rparr>" by simp
  show "\<exists>s'. tailonly n s = Some (Inr (0, s'))
        \<and> map length (cp_outbuff s') = map length (cp_outbuff s)
        \<and> (\<forall>out i. out < length (cp_outbuff s) \<and> i < n \<longrightarrow>
              cp_outbuff s' ! out ! i = foldl (+) 0 (tail_terms out i (cp_convlev s)))
        \<and> (\<forall>out i. out < length (cp_outbuff s) \<and> n \<le> i \<and> i < length (cp_outbuff s ! out) \<longrightarrow>
              cp_outbuff s' ! out ! i = cp_outbuff s ! out ! i)
        \<and> cp_convlev s'
            = map (\<lambda>lv. if lv_outoffs lv + lv_outsize lv = lv_parsize lv
                        then lv\<lparr>lv_done := lv_done lv - lv_wait lv, lv_wait := 0\<rparr>
                        else lv)
                (cp_convlev s)
        \<and> s' = s\<lparr>cp_convlev := cp_convlev s', cp_outbuff := cp_outbuff s'\<rparr>"
    by (rule exI [of _ ?s']) (intro conjI run szs first rest lv same)
next
  assume h: "\<not> ((\<forall>b \<in> set (cp_outbuff s). n \<le> length b)
          \<and> (\<forall>lv \<in> set (cp_convlev s). \<forall>Y \<in> set (lv_out_list lv).
                out_out Y < length (cp_outbuff s) \<and> tail_opind lv < length (out_buff Y)
                \<and> tail_outoffs lv + n \<le> length (out_buff Y ! tail_opind lv)))"
  show "tailonly n s = Some (Inl OutOfBounds)"
  proof (cases "\<forall>b \<in> set (cp_outbuff s). n \<le> length b")
    case False
    then have "\<not> list_all (\<lambda>b. n \<le> length b) (cp_outbuff s)" by (simp add: list_all_iff)
    with assms(1,2) show ?thesis by (simp add: tailonly_def Let_def)
  next
    case True
    let ?z = "map (zero_fill n) (cp_outbuff s)"
    have la: "list_all (\<lambda>b. n \<le> length b) (cp_outbuff s)"
      using True by (simp add: list_all_iff)
    have zs: "map length ?z = map length (cp_outbuff s)"
      using True by (simp add: zero_fill_length)
    have pz: "\<forall>l \<in> set (map length ?z). n \<le> l" using True by (simp only: zs) simp
    from h True have "\<exists>lv \<in> set (cp_convlev s). \<not> tail_in_bounds n (map length (cp_outbuff s)) lv"
      by (simp only: tail_in_bounds_iff [OF True]) blast
    then have "\<exists>lv \<in> set (cp_convlev s). \<not> tail_in_bounds n (map length ?z) lv"
      by (simp only: zs)
    from readtails_out_of_bounds [OF assms(3) pz this, of 0]
    have "readtails n 0 ?z (cp_convlev s) = Some (Inl OutOfBounds)" .
    with assms(1,2) la show ?thesis by (simp add: tailonly_def Let_def)
  qed
qed

text \<open>The demo convolver with two levels and two outputs: output 0 gets 5 from the first
  level (the smallest partition size) and 20 from the second, output 1 gets 2 from the
  first level.  Its accumulators have one float: \<open>tailonly (2)\<close> is out of bounds.\<close>

theorem tailonly_mixes_every_level_witness:
  "cp_state demo_tail2_proc = ST_PROC
   \<and> cp_outoffs demo_tail2_proc + cp_quantum demo_tail2_proc = cp_minpart demo_tail2_proc
   \<and> map lv_parsize (cp_convlev demo_tail2_proc) = [1, 2]
   \<and> tail_terms 0 0 (cp_convlev demo_tail2_proc) = [5, 20]
   \<and> tail_terms 1 0 (cp_convlev demo_tail2_proc) = [2]
   \<and> (\<exists>s'. tailonly 1 demo_tail2_proc = Some (Inr (0, s')) \<and> cp_outbuff s' = [[25], [2]]
         \<and> map lv_wait (cp_convlev s') = [0, 1] \<and> map lv_done (cp_convlev s') = [0, 1]
         \<and> map lv_ptind (cp_convlev s') = map lv_ptind (cp_convlev demo_tail2_proc))
   \<and> tailonly 2 demo_tail2_proc = Some (Inl OutOfBounds)"
proof -
  have h1: "cp_state demo_tail2_proc = ST_PROC" by (simp add: demo_tail2_proc_def)
  have h2: "cp_outoffs demo_tail2_proc + cp_quantum demo_tail2_proc = cp_minpart demo_tail2_proc"
    by (simp add: demo_tail2_proc_def Convproc_new_def)
  have h3: "\<forall>lv \<in> set (cp_convlev demo_tail2_proc). lv_wait lv \<le> lv_done lv"
    by (simp add: demo_tail2_proc_def)
  have h45: "(\<forall>b \<in> set (cp_outbuff demo_tail2_proc). 1 \<le> length b)
       \<and> (\<forall>lv \<in> set (cp_convlev demo_tail2_proc). \<forall>Y \<in> set (lv_out_list lv).
             out_out Y < length (cp_outbuff demo_tail2_proc) \<and> tail_opind lv < length (out_buff Y)
             \<and> tail_outoffs lv + 1 \<le> length (out_buff Y ! tail_opind lv))"
    by (simp add: demo_tail2_proc_def tail_opind_def tail_outoffs_def
        Convlevel_new_def next_opind_def)
  have h6: "\<not> ((\<forall>b \<in> set (cp_outbuff demo_tail2_proc). 2 \<le> length b)
       \<and> (\<forall>lv \<in> set (cp_convlev demo_tail2_proc). \<forall>Y \<in> set (lv_out_list lv).
             out_out Y < length (cp_outbuff demo_tail2_proc) \<and> tail_opind lv < length (out_buff Y)
             \<and> tail_outoffs lv + 2 \<le> length (out_buff Y ! tail_opind lv)))"
    by (simp add: demo_tail2_proc_def)
  have ps: "map lv_parsize (cp_convlev demo_tail2_proc) = [1, 2]"
    by (simp add: demo_tail2_proc_def)
  have t0: "tail_terms 0 0 (cp_convlev demo_tail2_proc) = [5, 20]"
    by (simp add: tail_terms_def demo_tail2_proc_def tail_opind_def tail_outoffs_def
        Convlevel_new_def next_opind_def)
  have t1: "tail_terms 1 0 (cp_convlev demo_tail2_proc) = [2]"
    by (simp add: tail_terms_def demo_tail2_proc_def tail_opind_def tail_outoffs_def
        Convlevel_new_def next_opind_def)
  note t = tailonly_mixes_every_level [OF h1 h2 h3]
  from t [of 1, THEN conjunct1, THEN mp, OF h45]
  obtain s' where run: "tailonly 1 demo_tail2_proc = Some (Inr (0, s'))"
    and sz: "map length (cp_outbuff s') = map length (cp_outbuff demo_tail2_proc)"
    and first: "\<forall>out i. out < length (cp_outbuff demo_tail2_proc) \<and> i < 1 \<longrightarrow>
          cp_outbuff s' ! out ! i = foldl (+) 0 (tail_terms out i (cp_convlev demo_tail2_proc))"
    and lv: "cp_convlev s'
        = map (\<lambda>lv. if lv_outoffs lv + lv_outsize lv = lv_parsize lv
                    then lv\<lparr>lv_done := lv_done lv - lv_wait lv, lv_wait := 0\<rparr>
                    else lv)
            (cp_convlev demo_tail2_proc)"
    by blast
  have len: "length (cp_outbuff demo_tail2_proc) = 2" by (simp add: demo_tail2_proc_def)
  from first len t0 have a: "cp_outbuff s' ! 0 ! 0 = 25" by simp
  from first len t1 have b: "cp_outbuff s' ! 1 ! 0 = 2" by simp
  from sz have shape: "map length (cp_outbuff s') = [1, 1]" by (simp add: demo_tail2_proc_def)
  then obtain x y where xy: "cp_outbuff s' = [[x], [y]]"
    by (auto simp: map_eq_Cons_conv length_Suc_conv)
  with a b have ob: "cp_outbuff s' = [[25], [2]]" by simp
  from lv have w: "map lv_wait (cp_convlev s') = [0, 1]"
    and d: "map lv_done (cp_convlev s') = [0, 1]"
    and p: "map lv_ptind (cp_convlev s') = map lv_ptind (cp_convlev demo_tail2_proc)"
    by (simp_all add: demo_tail2_proc_def Convlevel_new_def)
  have ex: "\<exists>s'. tailonly 1 demo_tail2_proc = Some (Inr (0, s')) \<and> cp_outbuff s' = [[25], [2]]
         \<and> map lv_wait (cp_convlev s') = [0, 1] \<and> map lv_done (cp_convlev s') = [0, 1]
         \<and> map lv_ptind (cp_convlev s') = map lv_ptind (cp_convlev demo_tail2_proc)"
    by (rule exI [of _ s']) (intro conjI run ob w d p)
  have oob: "tailonly 2 demo_tail2_proc = Some (Inl OutOfBounds)"
    by (rule t [of 2, THEN conjunct2, THEN mp, OF h6])
  show ?thesis by (intro conjI h1 h2 ps t0 t1 ex oob)
qed
section \<open>Properties of Convproc::configure\<close>

lemma plan_levels_pos:
  "0 < room \<Longrightarrow>
   plan_levels FL room lev_ok options c_fft c_mac step maxsize maxpart pind offs psize prio s nmin =
     (if \<not> offs < maxsize then Ok ([], psize)
      else if psize = 0 then Undefined
      else
        let npar = choose_npar FL c_fft c_mac maxpart psize nmin s
                     (u32 (maxsize - offs + psize - 1) div psize)
        in if \<not> lev_ok pind then Thrown
           else
             let lv = lv_configure prio offs npar psize options Convlevel_new;
                 offs' = u32 (offs + psize * npar);
                 more = (offs' < maxsize)
             in case plan_levels FL (room - 1) lev_ok options c_fft c_mac step maxsize maxpart
                       (pind + 1) offs'
                       (if more then u32 (psize * 2 ^ s) else psize)
                       (if more then prio - int s else prio)
                       (if more then step else s)
                       (if more then (if step = 1 then 2 else 6) else nmin) of
                  Ok (lvs, psize1) \<Rightarrow> Ok (lv # lvs, psize1)
                | Thrown \<Rightarrow> Thrown
                | Undefined \<Rightarrow> Undefined)"
proof -
  assume "0 < room"
  then obtain r where r: "room = Suc r" by (cases room) auto
  show ?thesis unfolding r by (simp only: plan_levels.simps diff_Suc_1)
qed

lemma and_pred_zero_pow2:
  fixes x :: nat
  shows "0 < x \<Longrightarrow> x AND (x - 1) = 0 \<Longrightarrow> \<exists>k. x = 2 ^ k"
proof (induction x rule: less_induct)
  case (less x)
  show ?case
  proof (cases "even x")
    case True
    then obtain y where x: "x = 2 * y" by (elim evenE)
    with less.prems have y: "0 < y" by simp
    have d: "(x - 1) div 2 = y - 1" using x y by (cases y) auto
    have "x AND (x - 1) = 2 * (y AND (y - 1))"
      using and_nat_rec [of x "x - 1"] True d x by simp
    with less.prems have "y AND (y - 1) = 0" by simp
    moreover have "y < x" using x y by simp
    ultimately obtain k where "y = 2 ^ k" using less.IH [of y] y by blast
    with x have "x = 2 ^ Suc k" by simp
    then show ?thesis by blast
  next
    case False
    then obtain y where x: "x = 2 * y + 1" by (elim oddE)
    have "x AND (x - 1) = 2 * y"
      using and_nat_rec [of x "x - 1"] x by simp
    with less.prems have "y = 0" by simp
    with x have "x = 2 ^ 0" by simp
    then show ?thesis by blast
  qed
qed

lemma choose_npar_cases:
  "choose_npar FL c_fft c_mac maxpart psize nmin s npar = npar
   \<or> (choose_npar FL c_fft c_mac maxpart psize nmin s npar = nmin \<and> psize < maxpart \<and> nmin < npar)"
  by (simp add: choose_npar_def Let_def)

lemma grow_size_returns:
  "0 < psize \<Longrightarrow> psize < 2 * minpart \<Longrightarrow> minpart < 2 ^ 31 \<Longrightarrow>
   \<exists>sz pr. grow_size psize minpart prio = Some (sz, pr) \<and> minpart \<le> sz \<and> sz < 2 * minpart"
proof (induction "minpart - psize" arbitrary: psize prio rule: less_induct)
  case less
  show ?case
  proof (cases "psize < minpart")
    case False
    with less.prems show ?thesis by (subst grow_size.simps) simp
  next
    case True
    with less.prems have u: "u32 (psize * 2) = psize * 2" by (simp add: u32_def)
    have m: "minpart - psize * 2 < minpart - psize" using True less.prems by simp
    have "0 < psize * 2" "psize * 2 < 2 * minpart" using True less.prems by simp_all
    from less.hyps [OF m this less.prems(3), of "prio - 1"]
    obtain sz pr where "grow_size (psize * 2) minpart (prio - 1) = Some (sz, pr)"
      and "minpart \<le> sz" and "sz < 2 * minpart" by blast
    with True u show ?thesis by (subst grow_size.simps) simp
  qed
qed

lemma plan_levels_step:
  assumes "offs < maxsize" and "0 < psize" and "lev_ok pind"
    and "npar = choose_npar FL c_fft c_mac maxpart psize nmin s
                  (u32 (maxsize - offs + psize - 1) div psize)"
    and "offs' = u32 (offs + psize * npar)"
  shows "plan_levels FL (Suc room) lev_ok options c_fft c_mac step maxsize maxpart pind offs psize prio s nmin
    = (case plan_levels FL room lev_ok options c_fft c_mac step maxsize maxpart
                       (pind + 1) offs'
                       (if offs' < maxsize then u32 (psize * 2 ^ s) else psize)
                       (if offs' < maxsize then prio - int s else prio)
                       (if offs' < maxsize then step else s)
                       (if offs' < maxsize then (if step = 1 then 2 else 6) else nmin) of
            Ok (lvs, psize1) \<Rightarrow>
              Ok (lv_configure prio offs npar psize options Convlevel_new # lvs, psize1)
          | Thrown \<Rightarrow> Thrown
          | Undefined \<Rightarrow> Undefined)"
proof -
  have z: "psize \<noteq> 0" using assms(2) by simp
  show ?thesis
    unfolding assms(5) assms(4)
    by (simp only: plan_levels.simps Let_def assms(1) assms(3) z not_True_eq_False if_False)
qed

lemma ceil_div_bounds:
  fixes a p :: nat
  assumes "0 < p" and "0 < a"
  shows "a \<le> p * ((a + p - 1) div p)" and "p * ((a + p - 1) div p) \<le> a + p - 1"
    and "p * ((a + p - 1) div p - 1) < a"
proof -
  let ?q = "(a + p - 1) div p"
  have e: "a + p - 1 = p * ?q + (a + p - 1) mod p" by simp
  have r: "(a + p - 1) mod p < p" using assms by simp
  show 2: "p * ?q \<le> a + p - 1" using e by linarith
  show 1: "a \<le> p * ?q" using e r assms by linarith
  have "0 < ?q" using 1 assms by (cases "?q = 0") auto
  then have "p * (?q - 1) = p * ?q - p" by (simp add: diff_mult_distrib2)
  with 2 assms show "p * (?q - 1) < a" by linarith
qed

lemma plan_levels_ok:
  assumes ok: "\<forall>k. lev_ok k" and st: "1 \<le> step" "step \<le> 2"
    and nw: "maxsize + 4 * maxpart \<le> 2 ^ 32"
  shows "1 \<le> s \<Longrightarrow> s \<le> 2 \<Longrightarrow>
     maxsize \<le> offs
       \<or> (0 < room \<and> 0 < psize \<and> psize \<le> 4 * maxpart \<and> maxpart \<le> psize * 2 ^ (room - 1)) \<Longrightarrow>
     \<exists>(lvs :: 'a Convlevel list) sz.
        plan_levels FL room lev_ok options c_fft c_mac step maxsize maxpart pind offs psize
                 prio s nmin = Ok (lvs, sz)
       \<and> length lvs \<le> room \<and> (offs < maxsize \<longrightarrow> lvs \<noteq> [])"
proof (induction room arbitrary: pind offs psize prio s nmin)
  case 0
  then show ?case by simp
next
  case (Suc room)
  show ?case
  proof (cases "offs < maxsize")
    case False
    then show ?thesis by simp
  next
    case True
    with Suc.prems have p: "0 < psize" "psize \<le> 4 * maxpart" "maxpart \<le> psize * 2 ^ room"
      by simp_all
    define a where "a = maxsize - offs"
    have a: "0 < a" "offs + a = maxsize" using True by (simp_all add: a_def)
    define npar0 where "npar0 = (a + psize - 1) div psize"
    have u0: "u32 (maxsize - offs + psize - 1) = a + psize - 1"
      using nw p a by (simp add: u32_def a_def)
    define npar where "npar = choose_npar FL c_fft c_mac maxpart psize nmin s npar0"
    define offs' where "offs' = u32 (offs + psize * npar)"
    note cd = ceil_div_bounds [OF p(1) a(1), folded npar0_def]
    let ?rec = "plan_levels FL room lev_ok options c_fft c_mac step maxsize maxpart
                       (pind + 1) offs'
                       (if offs' < maxsize then u32 (psize * 2 ^ s) else psize)
                       (if offs' < maxsize then prio - int s else prio)
                       (if offs' < maxsize then step else s)
                       (if offs' < maxsize then (if step = 1 then 2 else 6) else nmin)"
    have unf: "plan_levels FL (Suc room) lev_ok options c_fft c_mac step maxsize maxpart pind offs
        psize prio s nmin
      = (case ?rec of
            Ok (lvs, psize1) \<Rightarrow>
              Ok (lv_configure prio offs npar psize options Convlevel_new # lvs, psize1)
          | Thrown \<Rightarrow> Thrown
          | Undefined \<Rightarrow> Undefined)"
    proof (rule plan_levels_step [OF True p(1)])
      show "lev_ok pind" using ok by simp
      show "npar = choose_npar FL c_fft c_mac maxpart psize nmin s
                  (u32 (maxsize - offs + psize - 1) div psize)"
        by (simp only: npar_def npar0_def u0)
      show "offs' = u32 (offs + psize * npar)" by (simp add: offs'_def)
    qed
    have "\<exists>(lvs :: 'a Convlevel list) sz. ?rec = Ok (lvs, sz) \<and> length lvs \<le> room"
    proof -
      from choose_npar_cases [of FL c_fft c_mac maxpart psize nmin s npar0]
      consider (full) "npar = npar0" | (trim) "npar = nmin" "psize < maxpart" "nmin < npar0"
        by (auto simp: npar_def)
      then show ?thesis
      proof cases
        case full
        have "offs + psize * npar0 \<le> maxsize + psize - 1" using cd(2) a by linarith
        with nw p have "offs + psize * npar0 < 2 ^ 32" by linarith
        then have "offs' = offs + psize * npar0" by (simp add: offs'_def full u32_def)
        with cd(1) a have fin: "maxsize \<le> offs'" by linarith
        from fin have n: "\<not> offs' < maxsize" by simp
        have rec_eq: "?rec = plan_levels FL room lev_ok options c_fft c_mac step maxsize maxpart
            (pind + 1) offs' psize prio s nmin"
          by (simp only: n if_False)
        from Suc.IH [of s offs' psize "pind + 1" prio nmin] Suc.prems(1,2) fin
        show ?thesis unfolding rec_eq by blast
      next
        case trim
        from trim(3) have "nmin \<le> npar0 - 1" by linarith
        then have "psize * nmin \<le> psize * (npar0 - 1)" by (rule mult_le_mono2)
        with cd(3) have lt: "offs + psize * nmin < maxsize" using a by linarith
        with nw have "offs + psize * nmin < 2 ^ 32" by linarith
        then have o: "offs' = offs + psize * nmin" by (simp add: offs'_def trim(1) u32_def)
        with lt have more: "offs' < maxsize" by simp
        have s4: "(2::nat) ^ s \<le> 4" using Suc.prems(2) power_increasing [of s 2 "2::nat"] by simp
        have s2: "(2::nat) \<le> 2 ^ s" using Suc.prems(1) power_increasing [of 1 s "2::nat"] by simp
        have "psize * 2 ^ s \<le> psize * 4" using s4 by simp
        also have "\<dots> < 4 * maxpart" using trim(2) by simp
        finally have b: "psize * 2 ^ s < 4 * maxpart" .
        with nw have "psize * 2 ^ s < 2 ^ 32" by linarith
        then have sz: "u32 (psize * 2 ^ s) = psize * 2 ^ s" by (simp add: u32_def)
        have r0: "0 < room" using trim(2) p(3) by (cases room) auto
        then obtain r' where r': "room = Suc r'" by (cases room) auto
        have "maxpart \<le> psize * 2 ^ room" by (rule p(3))
        also have "\<dots> = (psize * 2) * 2 ^ (room - 1)" by (simp add: r')
        also have "\<dots> \<le> (psize * 2 ^ s) * 2 ^ (room - 1)" using s2 by simp
        finally have c: "maxpart \<le> (psize * 2 ^ s) * 2 ^ (room - 1)" .
        have pre: "maxsize \<le> offs'
           \<or> (0 < room \<and> 0 < psize * 2 ^ s \<and> psize * 2 ^ s \<le> 4 * maxpart
               \<and> maxpart \<le> (psize * 2 ^ s) * 2 ^ (room - 1))"
          using r0 p(1) b c by simp
        have rec_eq: "?rec = plan_levels FL room lev_ok options c_fft c_mac step maxsize maxpart
            (pind + 1) offs' (psize * 2 ^ s) (prio - int s) step (if step = 1 then 2 else 6)"
          by (simp only: more if_True sz)
        from Suc.IH [OF st pre, of "pind + 1" "prio - int s" "if step = 1 then 2 else 6"]
        show ?thesis unfolding rec_eq by blast
      qed
    qed
    then obtain lvs :: "'a Convlevel list" and sz
      where rc: "?rec = Ok (lvs, sz)" and len: "length lvs \<le> room" by blast
    let ?lvs = "lv_configure prio offs npar psize options Convlevel_new # lvs"
    have e: "plan_levels FL (Suc room) lev_ok options c_fft c_mac step maxsize maxpart pind offs
        psize prio s nmin = Ok (?lvs, sz)"
      unfolding unf rc by simp
    have "length ?lvs \<le> Suc room" "?lvs \<noteq> []" using len by simp_all
    with e show ?thesis by blast
  qed
qed

lemma is_power_of_two_test:
  assumes "0 < x" and "x AND (x - 1) = 0"
  shows "is_power_of_two x"
proof -
  from and_pred_zero_pow2 [OF assms] obtain k where k: "x = 2 ^ k" by blast
  have "k < 2 ^ k" by (rule less_exp)
  with k have "k \<le> x" by simp
  with k show ?thesis unfolding is_power_of_two_def by blast
qed

lemma not_I1_bad_param:
  assumes "0 < MINQUANT L" and "\<not> I1 L quantum minpart maxpart"
  shows "bad_param L ninp nout quantum minpart maxpart"
proof (rule ccontr)
  assume n: "\<not> bad_param L ninp nout quantum minpart maxpart"
  then have q: "0 < quantum" "quantum AND (quantum - 1) = 0"
    and m: "quantum \<le> minpart" "minpart AND (minpart - 1) = 0"
    and x: "minpart \<le> maxpart" "maxpart AND (maxpart - 1) = 0" "maxpart \<le> MAXPART L"
    using assms(1) by (auto simp: bad_param_def)
  from q m(1) x(1) have "0 < minpart" "0 < maxpart" by simp_all
  with q m x have "I1 L quantum minpart maxpart"
    by (simp add: I1_def is_power_of_two_test)
  with assms(2) show False by simp
qed

text \<open>
  C6, as stated, fails: the parameter check rejects more than a violation of I1.  With the
  limits of libzita-convolver, an idle convolver and one input and one output,
  \<open>quantum = minpart = 16\<close> and \<open>maxpart = 64\<close> satisfy I1 (powers of two, in order, below
  \<open>MAXPART\<close>), yet \<open>configure\<close> returns \<open>BAD_PARAM\<close> (\<open>minpart\<close> is below \<open>MINPART\<close>) and leaves
  the state \<open>IDLE\<close>.
\<close>

theorem configure_rejects_within_I1:
  "cp_state (Convproc_new :: int Convproc) = ST_IDLE
   \<and> I1 zita_limits 16 16 64
   \<and> (1::nat) \<le> MAXINP zita_limits \<and> (1::nat) \<le> MAXOUT zita_limits
   \<and> configure zita_limits exact_floats (\<lambda>k. True) True 1 1 1000 16 16 64 0 (Convproc_new :: int Convproc)
       = Some (BAD_PARAM, Convproc_new)"
proof -
  have p16: "is_power_of_two 16" unfolding is_power_of_two_def by (rule exI [of _ 4]) simp
  have p64: "is_power_of_two 64" unfolding is_power_of_two_def by (rule exI [of _ 6]) simp
  have "I1 zita_limits 16 16 64" by (simp add: I1_def zita_limits_def p16 p64)
  moreover have "bad_param zita_limits 1 1 16 16 64" by (simp add: bad_param_def zita_limits_def)
  ultimately show ?thesis
    by (simp add: configure_def Convproc_new_def) (simp add: zita_limits_def)
qed

text \<open>
  C6, amended.  The limits are those of a header with \<open>MINQUANT\<close> and \<open>MAXLEV\<close> positive,
  \<open>MAXPART\<close> at most \<open>MINPART * 2^(MAXLEV - 1)\<close>, and \<open>MAXDIVIS * MAXQUANT\<close> below \<open>2^32\<close>.
  For every call of \<open>configure\<close>: when the state is not \<open>IDLE\<close> it returns \<open>BAD_STATE\<close>;
  otherwise, when a channel count is out of range or the sizes violate I1, and also when
  \<open>quantum\<close> is outside \<open>MINQUANT .. MAXQUANT\<close>, \<open>minpart\<close> is below \<open>MINPART\<close> or \<open>minpart\<close>
  is above \<open>MAXDIVIS * quantum\<close>, it returns \<open>BAD_PARAM\<close>; in these cases the convolver is
  unchanged.  Otherwise, for a length that stays within \<open>uint32_t\<close> and when every
  allocation succeeds, it returns 0 with the state \<open>STOP\<close>, the parameters stored, the
  \<open>ninp\<close> input and \<open>nout\<close> output buffers allocated and a plan of at most \<open>MAXLEV\<close> levels,
  not empty when the length is positive.
\<close>

theorem configure_checks_then_builds:
  fixes s :: "('a::zero) Convproc"
  assumes "0 < MINQUANT L" and "0 < MAXLEV L"
    and "MAXPART L \<le> MINPART L * 2 ^ (MAXLEV L - 1)"
    and "MAXDIVIS L * MAXQUANT L < 2 ^ 32"
  shows "(cp_state s \<noteq> ST_IDLE \<longrightarrow>
            configure L FL lev_ok buf_ok ninp nout maxsize quantum minpart maxpart density s
              = Some (BAD_STATE, s))
    \<and> (cp_state s = ST_IDLE
        \<and> (ninp < 1 \<or> ninp > MAXINP L \<or> nout < 1 \<or> nout > MAXOUT L
            \<or> \<not> I1 L quantum minpart maxpart
            \<or> quantum < MINQUANT L \<or> quantum > MAXQUANT L \<or> minpart < MINPART L
            \<or> minpart > MAXDIVIS L * quantum) \<longrightarrow>
            configure L FL lev_ok buf_ok ninp nout maxsize quantum minpart maxpart density s
              = Some (BAD_PARAM, s))
    \<and> (cp_state s = ST_IDLE
        \<and> \<not> bad_param L ninp nout quantum minpart maxpart
        \<and> maxsize + 4 * MAXPART L \<le> 2 ^ 32 \<and> (\<forall>k. lev_ok k) \<and> buf_ok \<longrightarrow>
          (\<exists>s'. configure L FL lev_ok buf_ok ninp nout maxsize quantum minpart maxpart density s
                  = Some (Success, s')
             \<and> cp_state s' = ST_STOP \<and> cp_ninp s' = ninp \<and> cp_nout s' = nout
             \<and> cp_quantum s' = quantum \<and> cp_minpart s' = minpart
             \<and> length (cp_inpbuff s') = ninp \<and> length (cp_outbuff s') = nout
             \<and> length (cp_convlev s') \<le> MAXLEV L
             \<and> (0 < maxsize \<longrightarrow> cp_convlev s' \<noteq> [])))"
proof (intro conjI impI)
  assume "cp_state s \<noteq> ST_IDLE"
  then show "configure L FL lev_ok buf_ok ninp nout maxsize quantum minpart maxpart density s
              = Some (BAD_STATE, s)"
    by (simp add: configure_def)
next
  assume a: "cp_state s = ST_IDLE
        \<and> (ninp < 1 \<or> ninp > MAXINP L \<or> nout < 1 \<or> nout > MAXOUT L
            \<or> \<not> I1 L quantum minpart maxpart
            \<or> quantum < MINQUANT L \<or> quantum > MAXQUANT L \<or> minpart < MINPART L
            \<or> minpart > MAXDIVIS L * quantum)"
  have "bad_param L ninp nout quantum minpart maxpart"
  proof (cases "I1 L quantum minpart maxpart")
    case False
    with assms(1) show ?thesis by (rule not_I1_bad_param)
  next
    case True
    show ?thesis
    proof (cases "quantum > MAXQUANT L")
      case True
      then show ?thesis by (simp add: bad_param_def)
    next
      case False
      then have "quantum \<le> MAXQUANT L" by simp
      then have "MAXDIVIS L * quantum \<le> MAXDIVIS L * MAXQUANT L" by (rule mult_le_mono2)
      with assms(4) have "MAXDIVIS L * quantum < 2 ^ 32" by linarith
      then have "u32 (MAXDIVIS L * quantum) = MAXDIVIS L * quantum"
        unfolding u32_def by (rule mod_less)
      with a True False show ?thesis by (auto simp: bad_param_def)
    qed
  qed
  with a show "configure L FL lev_ok buf_ok ninp nout maxsize quantum minpart maxpart density s
              = Some (BAD_PARAM, s)"
    by (simp add: configure_def)
next
  assume a: "cp_state s = ST_IDLE
        \<and> \<not> bad_param L ninp nout quantum minpart maxpart
        \<and> maxsize + 4 * MAXPART L \<le> 2 ^ 32 \<and> (\<forall>k. lev_ok k) \<and> buf_ok"
  then have idle: "cp_state s = ST_IDLE" and good: "\<not> bad_param L ninp nout quantum minpart maxpart"
    and nw: "maxsize + 4 * MAXPART L \<le> 2 ^ 32" and ok: "\<forall>k. lev_ok k" and bok: buf_ok
    by simp_all
  from good assms(1) have q: "0 < quantum" "quantum \<le> minpart" "minpart \<le> maxpart"
    "maxpart \<le> MAXPART L" "MINPART L \<le> minpart"
    by (auto simp: bad_param_def)
  from nw have "MAXPART L < 2 ^ 31" by simp
  with q have m31: "minpart < 2 ^ 31" by linarith
  from q have q2: "quantum < 2 * minpart" by simp
  from grow_size_returns [OF q(1) q2 m31, of 0]
  obtain sz pr where g: "grow_size quantum minpart 0 = Some (sz, pr)"
    and sz: "minpart \<le> sz" "sz < 2 * minpart" by blast
  define nmin0 where "nmin0 = (if ninp < nout then ninp else nout)"
  define density1 where "density1 = (if fl_le FL density (fl_of_int FL 0)
                       then fl_div FL (fl_of_int FL 1) (fl_of_nat FL nmin0) else density)"
  define density2 where "density2 = (if fl_less FL (fl_of_int FL 1) density1 then fl_of_int FL 1
                       else density1)"
  define c_fft where "c_fft = fl_mul FL (fft_cost FL) (fl_of_nat FL (u32 (ninp + nout)))"
  define c_mac where "c_mac = fl_mul FL
                     (fl_mul FL (fl_mul FL (mac_cost FL) (fl_of_nat FL ninp)) (fl_of_nat FL nout))
                     density2"
  define step :: nat
    where "step = (if fl_less FL c_fft (fl_mul FL (fl_of_int FL 4) c_mac) then 1 else 2)"
  define s0 :: nat where "s0 = (if step = 2
                 then (if (maxpart div minpart) AND 0xAAAA \<noteq> 0 then 1 else 2)
                 else 1)"
  define nmin :: nat
    where "nmin = (if s0 = 1 then 2 else 6) + (if minpart = quantum then 1 else 0)"
  have st: "1 \<le> step" "step \<le> 2" by (simp_all add: step_def)
  have s0: "1 \<le> s0" "s0 \<le> 2" by (simp_all add: s0_def)
  have nw': "maxsize + 4 * maxpart \<le> 2 ^ 32" using nw q(4) by linarith
  have "MINPART L * 2 ^ (MAXLEV L - 1) \<le> sz * 2 ^ (MAXLEV L - 1)"
    using q(5) sz(1) by simp
  with assms(3) q(4) have cov: "maxpart \<le> sz * 2 ^ (MAXLEV L - 1)" by linarith
  have pre: "maxsize \<le> 0
       \<or> (0 < MAXLEV L \<and> 0 < sz \<and> sz \<le> 4 * maxpart \<and> maxpart \<le> sz * 2 ^ (MAXLEV L - 1))"
    using assms(2) q sz cov by simp
  from plan_levels_ok [OF ok st nw' s0 pre, where FL = FL and options = "cp_options s"
      and c_fft = c_fft and c_mac = c_mac and pind = 0 and prio = pr and nmin = nmin]
  obtain lvs :: "'a Convlevel list" and sz' where
    pl: "plan_levels FL (MAXLEV L) lev_ok (cp_options s) c_fft c_mac step maxsize maxpart 0 0 sz pr
           s0 nmin = Ok (lvs, sz')"
    and len: "length lvs \<le> MAXLEV L" and ne: "0 < maxsize \<longrightarrow> lvs \<noteq> []"
    by blast
  let ?s1 = "s\<lparr>cp_convlev := lvs, cp_ninp := ninp, cp_nout := nout,
                cp_quantum := quantum, cp_minpart := minpart,
                cp_maxpart := sz', cp_latecnt := 0, cp_inpsize := u32 (2 * sz')\<rparr>"
  let ?s' = "?s1\<lparr>cp_inpbuff := replicate ninp (replicate (cp_inpsize ?s1) 0),
                   cp_outbuff := replicate nout (replicate minpart 0),
                   cp_state := ST_STOP\<rparr>"
  have "configure L FL lev_ok buf_ok ninp nout maxsize quantum minpart maxpart density s
      = Some (Success, ?s')"
    using idle good bok g pl
    unfolding configure_def Let_def nmin0_def [symmetric] density1_def [symmetric]
      density2_def [symmetric] c_fft_def [symmetric] c_mac_def [symmetric]
      step_def [symmetric] s0_def [symmetric] nmin_def [symmetric]
    by simp
  with len ne
  show "\<exists>s'. configure L FL lev_ok buf_ok ninp nout maxsize quantum minpart maxpart density s
                  = Some (Success, s')
             \<and> cp_state s' = ST_STOP \<and> cp_ninp s' = ninp \<and> cp_nout s' = nout
             \<and> cp_quantum s' = quantum \<and> cp_minpart s' = minpart
             \<and> length (cp_inpbuff s') = ninp \<and> length (cp_outbuff s') = nout
             \<and> length (cp_convlev s') \<le> MAXLEV L
             \<and> (0 < maxsize \<longrightarrow> cp_convlev s' \<noteq> [])"
    by (intro exI [of _ ?s']) simp
qed

theorem configure_checks_then_builds_witness:
  "configure zita_limits exact_floats (\<lambda>k. True) True 1 1 1000 64 64 8192 0
       (Convproc_new\<lparr>cp_state := ST_STOP\<rparr> :: int Convproc)
     = Some (BAD_STATE, Convproc_new\<lparr>cp_state := ST_STOP\<rparr>)
   \<and> configure zita_limits exact_floats (\<lambda>k. True) True 1 1 1000 64 96 8192 0 (Convproc_new :: int Convproc)
     = Some (BAD_PARAM, Convproc_new)
   \<and> (\<exists>s'. configure zita_limits exact_floats (\<lambda>k. True) True 1 1 1000 64 64 8192 0
               (Convproc_new :: int Convproc) = Some (Success, s')
          \<and> cp_state s' = ST_STOP \<and> cp_ninp s' = 1 \<and> cp_minpart s' = 64
          \<and> length (cp_convlev s') \<le> 8 \<and> cp_convlev s' \<noteq> [])"
proof -
  have l: "0 < MINQUANT zita_limits" "0 < MAXLEV zita_limits"
    "MAXPART zita_limits \<le> MINPART zita_limits * 2 ^ (MAXLEV zita_limits - 1)"
    "MAXDIVIS zita_limits * MAXQUANT zita_limits < 2 ^ 32"
    by (simp_all add: zita_limits_def)
  note t = configure_checks_then_builds [OF l]
  have a: "cp_state (Convproc_new\<lparr>cp_state := ST_STOP\<rparr> :: int Convproc) \<noteq> ST_IDLE" by simp
  have i: "cp_state (Convproc_new :: int Convproc) = ST_IDLE" by (simp add: Convproc_new_def)
  have n96: "96 AND (96 - 1) \<noteq> (0::nat)" by simp
  have b: "\<not> I1 zita_limits 64 96 8192"
  proof
    assume "I1 zita_limits 64 96 8192"
    then have "is_power_of_two 96" by (simp add: I1_def)
    then obtain k where k: "(96::nat) = 2 ^ k" unfolding is_power_of_two_def by blast
    have "k < 7"
    proof (rule ccontr)
      assume "\<not> k < 7"
      then have "(2::nat) ^ 7 \<le> 2 ^ k" by (intro power_increasing) simp_all
      with k show False by simp
    qed
    then have "k \<in> {0, 1, 2, 3, 4, 5, 6}" by auto
    with k show False by auto
  qed
  have g: "\<not> bad_param zita_limits 1 1 64 64 8192"
    by (simp add: bad_param_def zita_limits_def u32_def)
  have w: "1000 + 4 * MAXPART zita_limits \<le> 2 ^ 32" by (simp add: zita_limits_def)
  from t [where s = "Convproc_new\<lparr>cp_state := ST_STOP\<rparr> :: int Convproc" and lev_ok = "\<lambda>k. True" and buf_ok = True and ninp = 1
      and nout = 1 and maxsize = 1000 and quantum = 64 and minpart = 64 and maxpart = 8192
      and density = 0 and FL = exact_floats, THEN conjunct1] a
  have c1: "configure zita_limits exact_floats (\<lambda>k. True) True 1 1 1000 64 64 8192 0
       (Convproc_new\<lparr>cp_state := ST_STOP\<rparr> :: int Convproc)
     = Some (BAD_STATE, Convproc_new\<lparr>cp_state := ST_STOP\<rparr>)"
    by blast
  from t [where s = "Convproc_new :: int Convproc" and lev_ok = "\<lambda>k. True" and buf_ok = True and ninp = 1
      and nout = 1 and maxsize = 1000 and quantum = 64 and minpart = 96 and maxpart = 8192
      and density = 0 and FL = exact_floats,
      THEN conjunct2, THEN conjunct1] i b
  have c2: "configure zita_limits exact_floats (\<lambda>k. True) True 1 1 1000 64 96 8192 0
      (Convproc_new :: int Convproc) = Some (BAD_PARAM, Convproc_new)"
    by blast
  from t [where s = "Convproc_new :: int Convproc" and lev_ok = "\<lambda>k. True" and buf_ok = True and ninp = 1
      and nout = 1 and maxsize = 1000 and quantum = 64 and minpart = 64 and maxpart = 8192
      and density = 0 and FL = exact_floats,
      THEN conjunct2, THEN conjunct2] i g w
  have c3: "\<exists>s'. configure zita_limits exact_floats (\<lambda>k. True) True 1 1 1000 64 64 8192 0
               (Convproc_new :: int Convproc) = Some (Success, s')
          \<and> cp_state s' = ST_STOP \<and> cp_ninp s' = 1 \<and> cp_minpart s' = 64
          \<and> length (cp_convlev s') \<le> 8 \<and> cp_convlev s' \<noteq> []"
    by (auto simp: zita_limits_def)
  from c1 c2 c3 show ?thesis by blast
qed

end
